theory Spec2Isabelle
  imports Main "HOL-Library.Sublist"
begin

section \<open>Code-review chat: a shallow embedding of CodeReviewChat.ts\<close>

text \<open>
  The TypeScript file talks to two remote services (the Slack web API and the GitHub
  issue provider).  Every remote call is an \<open>await\<close> that either yields a response or
  rejects, so each call is modelled as a function of an abstract world state \<open>'s\<close> that
  returns \<open>Inl\<close> of the thrown error or \<open>Inr\<close> of the response, together with the next
  world state.  Every function of the model also returns the list of events it emitted
  (remote calls issued and lines logged, in order), so that statements about which calls
  were made can be written down.
\<close>

subsection \<open>JavaScript values\<close>

text \<open>
  A thrown \<open>Error\<close> with its message; \<open>`${err}`\<close> renders it as \<open>Error: message\<close>, and
  as \<open>Error\<close> alone when the message is empty.
\<close>

datatype error = Error string

fun error_to_string :: "error \<Rightarrow> string" where
  "error_to_string (Error m) = (if m = [] then ''Error'' else ''Error: '' @ m)"

text \<open>
  Truthiness of an optional string (\<open>undefined\<close> and \<open>''\<close> are falsy) and of an optional
  number (\<open>undefined\<close> and \<open>0\<close> are falsy).
\<close>

definition truthy_string :: "string option \<Rightarrow> bool" where
  "truthy_string v = (case v of None \<Rightarrow> False | Some s \<Rightarrow> s \<noteq> [])"

definition truthy_number :: "int option \<Rightarrow> bool" where
  "truthy_number v = (case v of None \<Rightarrow> False | Some n \<Rightarrow> n \<noteq> 0)"

text \<open>\<open>s.includes(p)\<close>: \<open>p\<close> occurs in \<open>s\<close> as a contiguous substring.\<close>

fun str_includes :: "string \<Rightarrow> string \<Rightarrow> bool" where
  "str_includes [] p = (p = [])"
| "str_includes (c # cs) p = (prefix p (c # cs) \<or> str_includes cs p)"

text \<open>
  \<open>s.replace(pat, rep)\<close> with a string pattern: only the first occurrence of \<open>pat\<close> is
  replaced, and \<open>s\<close> is returned unchanged when \<open>pat\<close> does not occur.  (The replacement
  used by the program contains no \<open>$\<close>, so it is taken literally.)
\<close>

fun str_replace :: "string \<Rightarrow> string \<Rightarrow> string \<Rightarrow> string" where
  "str_replace pat rep [] = (if pat = [] then rep else [])"
| "str_replace pat rep (c # cs) =
     (if prefix pat (c # cs) then rep @ drop (length pat) (c # cs)
      else c # str_replace pat rep cs)"

subsection \<open>Slack data\<close>

record SlackReaction =
  reaction_name :: string
  reaction_count :: int
  reaction_users :: "string list"

text \<open>
  \<open>subtype\<close> is \<open>undefined\<close> for a normal message; \<open>reply_count\<close> and \<open>reactions\<close> are
  optional fields.
\<close>

record SlackMessage =
  subtype :: "string option"
  msg_text :: string
  reply_count :: "int option"
  ts :: string
  reactions :: "SlackReaction list option"

record Channel =
  channel_id :: string
  channel_name :: string
  is_member :: bool

record ResponseMetadata =
  next_cursor :: "string option"

record ConversationsList =
  channels :: "Channel list"
  response_metadata :: "ResponseMetadata option"

text \<open>The response of \<open>conversations.history\<close> and of \<open>conversations.replies\<close>.\<close>

record MessagesResponse =
  ok :: bool
  messages :: "SlackMessage list option"

text \<open>A \<open>WebClient\<close> is determined by the token it was created with.\<close>

datatype WebClient = WebClient string

record Button =
  button_text :: string
  button_style :: "string option"
  action_id :: string
  button_url :: string

datatype KnownBlock = Section string | Actions "Button list"

subsection \<open>Events and the remote Slack API\<close>

text \<open>
  Modelled from the spec: the milestone handed from \<open>getCurrentRepoMilestone\<close> to
  \<open>setMilestone\<close> (its declaration in \<open>../api/api\<close> is not part of the sources); it is
  present or absent, and otherwise opaque.
\<close>

datatype Milestone = Milestone int

datatype event =
    Log string
  | ConversationsListCall WebClient "string option"
  | ConversationsHistoryCall WebClient string nat
  | ConversationsRepliesCall WebClient string string
  | ChatDeleteCall WebClient string string bool
  | ChatPostMessageCall WebClient string string "KnownBlock list" bool
  | GetIssueCall
  | HasWriteAccessCall string
  | AddAssigneeCall string
  | GetCurrentRepoMilestoneCall
  | SetMilestoneCall Milestone
  | ListReviewsCall string string int
  | ListReviewRequestsCall string string int

record 's slack_api =
  conversations_list ::
    "WebClient \<Rightarrow> string option \<Rightarrow> 's \<Rightarrow> (error + ConversationsList) \<times> 's"
  conversations_history ::
    "WebClient \<Rightarrow> string \<Rightarrow> nat \<Rightarrow> 's \<Rightarrow> (error + MessagesResponse) \<times> 's"
  conversations_replies ::
    "WebClient \<Rightarrow> string \<Rightarrow> string \<Rightarrow> 's \<Rightarrow> (error + MessagesResponse) \<times> 's"
  chat_delete ::
    "WebClient \<Rightarrow> string \<Rightarrow> string \<Rightarrow> bool \<Rightarrow> 's \<Rightarrow> (error + unit) \<times> 's"
  chat_postMessage ::
    "WebClient \<Rightarrow> string \<Rightarrow> string \<Rightarrow> KnownBlock list \<Rightarrow> bool \<Rightarrow> 's \<Rightarrow> (error + unit) \<times> 's"

subsection \<open>listAllMemberships and Chatter.getChat\<close>

text \<open>\<open>groups?.response_metadata?.next_cursor\<close>\<close>

definition cursor_of :: "ConversationsList option \<Rightarrow> string option" where
  "cursor_of groups =
     (case groups of
        None \<Rightarrow> None
      | Some g \<Rightarrow> (case response_metadata g of None \<Rightarrow> None | Some md \<Rightarrow> next_cursor md))"

text \<open>
  One call of \<open>listAllMemberships_loop\<close> is one pass through the body of the
  \<open>do ... while\<close>: \<open>groups\<close> and \<open>channels\<close> are the loop's variables, \<open>evs\<close> the events so
  far.  The loop runs for as long as the server hands out cursors, so the function is
  partial: \<open>None\<close> means that the loop never ends.
\<close>

partial_function (option) listAllMemberships_loop ::
  "'s slack_api \<Rightarrow> WebClient \<Rightarrow> ConversationsList option \<Rightarrow> Channel list \<Rightarrow> event list \<Rightarrow> 's
     \<Rightarrow> (Channel list \<times> event list \<times> 's) option"
where
  "listAllMemberships_loop api web groups chans evs s =
     (case conversations_list api web (cursor_of groups) s of
        (Inr groups', s') \<Rightarrow>
          (if truthy_string (cursor_of (Some groups'))
           then listAllMemberships_loop api web (Some groups') (chans @ channels groups')
                  (evs @ [ConversationsListCall web (cursor_of groups)]) s'
           else Some (chans @ channels groups',
                      evs @ [ConversationsListCall web (cursor_of groups)], s'))
      | (Inl err, s') \<Rightarrow>
          Some (chans,
                evs @ [ConversationsListCall web (cursor_of groups),
                       Log (''Error listing channels: '' @ error_to_string err)], s'))"

definition listAllMemberships ::
  "'s slack_api \<Rightarrow> WebClient \<Rightarrow> 's \<Rightarrow> (Channel list \<times> event list \<times> 's) option"
where
  "listAllMemberships api web s =
     (case listAllMemberships_loop api web None [] [] s of
        None \<Rightarrow> None
      | Some (chans, evs, s') \<Rightarrow> Some (filter is_member chans, evs, s'))"

text \<open>
  \<open>getChat\<close> throws when the configured name is empty or no member channel has it;
  otherwise it returns the client and the id of the first member channel of that name.
\<close>

definition getChat ::
  "'s slack_api \<Rightarrow> string \<Rightarrow> string \<Rightarrow> 's
     \<Rightarrow> ((error + WebClient \<times> string) \<times> event list \<times> 's) option"
where
  "getChat api slackToken notificationChannel s =
     (case listAllMemberships api (WebClient slackToken) s of
        None \<Rightarrow> None
      | Some (memberships, evs, s') \<Rightarrow>
          (case (if notificationChannel \<noteq> []
                 then find (\<lambda>m. channel_name m = notificationChannel) memberships
                 else None) of
             None \<Rightarrow>
               Some (Inl (Error (''Slack channel not found: '' @ notificationChannel)), evs, s')
           | Some codereviewChannel \<Rightarrow>
               Some (Inr (WebClient slackToken, channel_id codereviewChannel), evs, s')))"

subsection \<open>CodeReviewChatDeleter\<close>

record CodeReviewChatDeleter =
  slackToken :: string
  notificationChannel :: string
  elevatedClient :: "WebClient option"
  prUrl :: string

text \<open>The constructor: an elevated client exists only for a non-empty elevated token.\<close>

definition new_CodeReviewChatDeleter ::
  "string \<Rightarrow> string option \<Rightarrow> string \<Rightarrow> string \<Rightarrow> CodeReviewChatDeleter"
where
  "new_CodeReviewChatDeleter token slackElevatedUserToken channel url =
     \<lparr> slackToken = token,
       notificationChannel = channel,
       elevatedClient =
         (case slackElevatedUserToken of
            None \<Rightarrow> None
          | Some t \<Rightarrow> if t = [] then None else Some (WebClient t)),
       prUrl = url \<rparr>"

text \<open>The predicate handed to \<open>messages.filter\<close>.\<close>

definition isMessageToDelete :: "CodeReviewChatDeleter \<Rightarrow> SlackMessage \<Rightarrow> bool" where
  "isMessageToDelete this message =
     (let isCodeReviewMessage = str_includes (msg_text message) (prUrl this) in
      if truthy_string (subtype message) then True
      else (case (elevatedClient this, reactions message) of
              (Some _, Some rs) \<Rightarrow>
                isCodeReviewMessage
                \<or> list_ex (\<lambda>reaction. reaction_name reaction = ''white_check_mark'') rs
            | _ \<Rightarrow> isCodeReviewMessage))"

definition messagesToDelete :: "CodeReviewChatDeleter \<Rightarrow> SlackMessage list \<Rightarrow> SlackMessage list"
where
  "messagesToDelete this msgs = filter (isMessageToDelete this) msgs"

text \<open>
  The loop that collects the replies of the messages queued for deletion.  A rejected
  \<open>conversations.replies\<close> call is not caught there, so it ends the loop with the error.
  The result is the content of the \<open>replies\<close> array.
\<close>

fun fetchReplies ::
  "'s slack_api \<Rightarrow> WebClient \<Rightarrow> string \<Rightarrow> SlackMessage list \<Rightarrow> 's
     \<Rightarrow> (error + SlackMessage list) \<times> event list \<times> 's"
where
  "fetchReplies api client channel [] s = (Inr [], [], s)"
| "fetchReplies api client channel (message # rest) s =
     (if truthy_number (reply_count message) then
        (case conversations_replies api client channel (ts message) s of
           (Inl err, s') \<Rightarrow>
             (Inl err, [ConversationsRepliesCall client channel (ts message)], s')
         | (Inr replyThread, s') \<Rightarrow>
             (let (pushed, logged) =
                    (case (ok replyThread, messages replyThread) of
                       (True, Some thread) \<Rightarrow> (drop 1 thread, [])
                     | _ \<Rightarrow> ([], [Log ''Error getting messages replies'']))
              in case fetchReplies api client channel rest s' of
                   (Inl err, evs, s'') \<Rightarrow>
                     (Inl err,
                      ConversationsRepliesCall client channel (ts message) # logged @ evs, s'')
                 | (Inr replies, evs, s'') \<Rightarrow>
                     (Inr (pushed @ replies),
                      ConversationsRepliesCall client channel (ts message) # logged @ evs, s'')))
      else fetchReplies api client channel rest s)"

text \<open>
  The body of the \<open>try\<close>: the deletion loop.  A tombstone is skipped; any other message
  is deleted through the elevated client (as the user) when there is one, and through the
  standard client otherwise.  The loop ends with \<open>Inl\<close> at the first \<open>chat.delete\<close> that
  throws.
\<close>

definition deleteClient :: "WebClient \<Rightarrow> WebClient option \<Rightarrow> WebClient \<times> bool" where
  "deleteClient client elevated =
     (case elevated of Some e \<Rightarrow> (e, True) | None \<Rightarrow> (client, False))"

fun deleteLoop ::
  "'s slack_api \<Rightarrow> WebClient \<Rightarrow> WebClient option \<Rightarrow> string \<Rightarrow> SlackMessage list \<Rightarrow> 's
     \<Rightarrow> (error + unit) \<times> event list \<times> 's"
where
  "deleteLoop api client elevated channel [] s = (Inr (), [], s)"
| "deleteLoop api client elevated channel (message # rest) s =
     (if subtype message = Some ''tombstone'' then deleteLoop api client elevated channel rest s
      else
        (case chat_delete api (fst (deleteClient client elevated)) channel (ts message)
                (snd (deleteClient client elevated)) s of
           (Inl err, s') \<Rightarrow>
             (Inl err,
              [ChatDeleteCall (fst (deleteClient client elevated)) channel (ts message)
                 (snd (deleteClient client elevated))], s')
         | (Inr _, s') \<Rightarrow>
             (case deleteLoop api client elevated channel rest s' of
                (r, evs, s'') \<Rightarrow>
                  (r, ChatDeleteCall (fst (deleteClient client elevated)) channel (ts message)
                        (snd (deleteClient client elevated)) # evs, s''))))"

text \<open>The \<open>try ... catch\<close> around the deletion loop: the error is logged and dropped.\<close>

definition deleteMessages ::
  "'s slack_api \<Rightarrow> WebClient \<Rightarrow> WebClient option \<Rightarrow> string \<Rightarrow> SlackMessage list \<Rightarrow> 's
     \<Rightarrow> (error + unit) \<times> event list \<times> 's"
where
  "deleteMessages api client elevated channel msgs s =
     (case deleteLoop api client elevated channel msgs s of
        (Inl e, evs, s') \<Rightarrow>
          (Inr (), evs @ [Log ''error deleting message, probably posted by some human''], s')
      | (Inr u, evs, s') \<Rightarrow> (Inr (), evs, s'))"

text \<open>
  \<open>run\<close> after \<open>getChat\<close> has returned \<open>client\<close> and \<open>channel\<close>: the history is read, the
  candidates are selected and extended by their replies, and the result is deleted.
\<close>

definition run_in_channel ::
  "CodeReviewChatDeleter \<Rightarrow> 's slack_api \<Rightarrow> WebClient \<Rightarrow> string \<Rightarrow> 's
     \<Rightarrow> (error + unit) \<times> event list \<times> 's"
where
  "run_in_channel this api client channel s =
     (case conversations_history api client channel 20 s of
        (Inl err, s1) \<Rightarrow> (Inl err, [ConversationsHistoryCall client channel 20], s1)
      | (Inr response, s1) \<Rightarrow>
          (case (ok response, messages response) of
             (True, Some msgs) \<Rightarrow>
               (case fetchReplies api client channel (messagesToDelete this msgs) s1 of
                  (Inl err, evs2, s2) \<Rightarrow>
                    (Inl err, ConversationsHistoryCall client channel 20 # evs2, s2)
                | (Inr replies, evs2, s2) \<Rightarrow>
                    if messagesToDelete this msgs @ replies = [] then
                      (Inr (), ConversationsHistoryCall client channel 20 # evs2
                               @ [Log ''no message found, exiting''], s2)
                    else
                      (case deleteMessages api client (elevatedClient this) channel
                              (messagesToDelete this msgs @ replies) s2 of
                         (r, evs3, s3) \<Rightarrow>
                           (r, ConversationsHistoryCall client channel 20 # evs2 @ evs3, s3)))
           | _ \<Rightarrow>
               (Inl (Error ''Error getting channel history''),
                [ConversationsHistoryCall client channel 20], s1)))"

definition run_deleter ::
  "CodeReviewChatDeleter \<Rightarrow> 's slack_api \<Rightarrow> 's \<Rightarrow> ((error + unit) \<times> event list \<times> 's) option"
where
  "run_deleter this api s =
     (case getChat api (slackToken this) (notificationChannel this) s of
        None \<Rightarrow> None
      | Some (Inl err, evs, s') \<Rightarrow> Some (Inl err, evs, s')
      | Some (Inr (client, channel), evs, s') \<Rightarrow>
          (case run_in_channel this api client channel s' of
             (r, evs', s'') \<Rightarrow> Some (r, evs @ evs', s'')))"

subsection \<open>CodeReviewChat: the announcement\<close>

record PR =
  number :: int
  body :: string
  additions :: int
  deletions :: int
  changed_files :: int
  url :: string
  owner :: string
  draft :: bool
  title :: string

record Payload =
  payload_owner :: string
  repo :: string
  repo_full_name :: string
  repo_url :: "string option"
  pr :: PR

record Options =
  options_slackToken :: string
  codereviewChannel :: string
  payload :: Payload

text \<open>
  Modelled from the spec: the issue/PR provider (\<open>GitHubIssue\<close> of \<open>../api/api\<close> and the
  \<open>Octokit\<close> client), whose declarations are not part of the sources.  Section 6 of the
  spec lists its operations; the fields below are the ones \<open>CodeReviewChat.run\<close> reads.
  Each operation is called at most once in a run, so the provider is given by what each
  call yields: \<open>Inl\<close> when the promise rejects, \<open>Inr\<close> of the value otherwise.
\<close>

record User =
  user_name :: string

record Issue =
  author :: User
  assignee :: "string option"
  milestone :: "Milestone option"

record Review =
  review_user_login :: string

record ReviewsResponse =
  reviews_data :: "Review list option"

record ReviewRequests =
  users :: "string list option"

record ReviewRequestsResponse =
  requests_data :: "ReviewRequests option"

record github_api =
  getIssue :: "error + Issue"
  hasWriteAccess :: "User \<Rightarrow> error + bool"
  addAssignee :: "string \<Rightarrow> error + unit"
  getCurrentRepoMilestone :: "error + Milestone option"
  setMilestone :: "Milestone \<Rightarrow> error + unit"
  listReviews :: "string \<Rightarrow> string \<Rightarrow> int \<Rightarrow> error + ReviewsResponse option"
  listReviewRequests :: "string \<Rightarrow> string \<Rightarrow> int \<Rightarrow> error + ReviewRequestsResponse option"

text \<open>
  A number in a template literal: the decimal digits of an integer, with a leading
  minus sign when it is negative.  This is what JavaScript prints for an integer of
  magnitude below \<open>10\<^sup>2\<^sup>1\<close>, which a count of files is; from there on it prints
  exponent notation, which is outside this model.
\<close>

function nat_to_string :: "nat \<Rightarrow> string" where
  "nat_to_string n =
     (if n < 10 then [''0123456789'' ! n]
      else nat_to_string (n div 10) @ [''0123456789'' ! (n mod 10)])"
  by pat_completeness auto
termination
  by (relation "measure (\<lambda>n. n)") auto

definition number_to_string :: "int \<Rightarrow> string" where
  "number_to_string n =
     (if n < 0 then ''-'' @ nat_to_string (nat (- n)) else nat_to_string (nat n))"

text \<open>\<open>title.replace(/`/g, '')\<close>: every backtick (character 0x60) is removed.\<close>

definition cleanTitle :: "PR \<Rightarrow> string" where
  "cleanTitle p = filter (\<lambda>c. c \<noteq> CHR 0x60) (title p)"

definition changedFilesMessage :: "PR \<Rightarrow> string" where
  "changedFilesMessage p =
     number_to_string (changed_files p) @ '' file''
       @ (if changed_files p > 1 then ''s'' else [])"

text \<open>
  \<open>toLocaleString\<close> depends on the locale of the host, so it is a parameter of the model.
\<close>

definition diffMessage :: "(int \<Rightarrow> string) \<Rightarrow> PR \<Rightarrow> string" where
  "diffMessage toLocaleString p =
     ''+'' @ toLocaleString (additions p) @ '' -'' @ toLocaleString (deletions p) @ '', ''
       @ changedFilesMessage p"

definition repoMessage :: "Options \<Rightarrow> string" where
  "repoMessage options =
     (if repo_full_name (payload options) = ''microsoft/vscode'' then []
      else '' in '' @ repo_full_name (payload options))"

definition githubUrl :: "PR \<Rightarrow> string" where
  "githubUrl p = url p"

definition vscodeDevUrl :: "PR \<Rightarrow> string" where
  "vscodeDevUrl p = str_replace ''https://'' ''https://insiders.vscode.dev/'' (url p)"

definition announcement_blocks :: "(int \<Rightarrow> string) \<Rightarrow> Options \<Rightarrow> KnownBlock list" where
  "announcement_blocks toLocaleString options =
     [Section (cleanTitle (pr (payload options)) @ '' by '' @ owner (pr (payload options))
               @ repoMessage options @ [CHR '':'', CHR '' '', CHR 0x60]
               @ diffMessage toLocaleString (pr (payload options)) @ [CHR 0x60]),
      Actions
        [\<lparr> button_text = ''Open in vscode.dev'', button_style = Some ''primary'',
           action_id = ''vscodedev'', button_url = vscodeDevUrl (pr (payload options)) \<rparr>,
         \<lparr> button_text = ''Open on github.com'', button_style = None,
           action_id = ''github'', button_url = githubUrl (pr (payload options)) \<rparr>]]"

text \<open>\<open>CodeReviewChat.postMessage\<close>\<close>

definition postMessage ::
  "'s slack_api \<Rightarrow> Options \<Rightarrow> string \<Rightarrow> KnownBlock list \<Rightarrow> 's
     \<Rightarrow> ((error + unit) \<times> event list \<times> 's) option"
where
  "postMessage api options message blocks s =
     (case getChat api (options_slackToken options) (codereviewChannel options) s of
        None \<Rightarrow> None
      | Some (Inl err, evs, s') \<Rightarrow> Some (Inl err, evs, s')
      | Some (Inr (client, channel), evs, s') \<Rightarrow>
          (case chat_postMessage api client message channel blocks True s' of
             (r, s'') \<Rightarrow>
               Some (r, evs @ [ChatPostMessageCall client message channel blocks True], s'')))"

text \<open>
  The test \<open>hasExistingReview || existingRequests?.data?.users?.length\<close>: some review
  whose user is not the author, or a non-empty list of requested reviewers.
\<close>

definition hasExistingReview :: "User \<Rightarrow> ReviewsResponse option \<Rightarrow> bool" where
  "hasExistingReview a existingReviews =
     (case existingReviews of
        None \<Rightarrow> False
      | Some response \<Rightarrow>
          (case reviews_data response of
             None \<Rightarrow> False
           | Some reviews \<Rightarrow> list_ex (\<lambda>review. review_user_login review \<noteq> user_name a) reviews))"

definition requestedUsers :: "ReviewRequestsResponse option \<Rightarrow> string list" where
  "requestedUsers existingRequests =
     (case existingRequests of
        None \<Rightarrow> []
      | Some response \<Rightarrow>
          (case requests_data response of
             None \<Rightarrow> []
           | Some d \<Rightarrow> (case users d of None \<Rightarrow> [] | Some us \<Rightarrow> us)))"

definition hasExisting ::
  "User \<Rightarrow> ReviewsResponse option \<Rightarrow> ReviewRequestsResponse option \<Rightarrow> bool"
where
  "hasExisting a existingReviews existingRequests =
     (hasExistingReview a existingReviews \<or> length (requestedUsers existingRequests) \<noteq> 0)"

text \<open>
  The three tasks that \<open>run\<close> starts and joins with \<open>Promise.all\<close>.  A task runs up to
  its first \<open>await\<close> when it is created, so the calls that the tasks issue at once come
  first, in the order in which the tasks are created: \<open>addAssignee\<close>, then
  \<open>getCurrentRepoMilestone\<close>, then \<open>listReviews\<close> and \<open>listReviewRequests\<close>.  What a task
  does after its first \<open>await\<close> comes later.  The tasks share no state, so each is modelled
  on its own, as its result, the events it issues at once and the events that follow; the
  events that follow are listed task by task, which is their order when the provider
  answers the calls in the order in which they were issued.
\<close>

definition assigneeTask :: "github_api \<Rightarrow> Issue \<Rightarrow> (error + unit) \<times> event list \<times> event list"
where
  "assigneeTask gh data =
     (if \<not> truthy_string (assignee data)
      then (addAssignee gh (user_name (author data)),
            [AddAssigneeCall (user_name (author data))], [])
      else (Inr (), [], []))"

definition milestoneTask :: "github_api \<Rightarrow> Issue \<Rightarrow> (error + unit) \<times> event list \<times> event list"
where
  "milestoneTask gh data =
     (case getCurrentRepoMilestone gh of
        Inl err \<Rightarrow> (Inl err, [GetCurrentRepoMilestoneCall], [])
      | Inr currentMilestone \<Rightarrow>
          (case (milestone data, currentMilestone) of
             (None, Some m) \<Rightarrow> (setMilestone gh m, [GetCurrentRepoMilestoneCall], [SetMilestoneCall m])
           | _ \<Rightarrow> (Inr (), [GetCurrentRepoMilestoneCall], [])))"

text \<open>The two calls that the third task issues at once, under \<open>Promise.all\<close>.\<close>

definition reviewCalls :: "Options \<Rightarrow> event list" where
  "reviewCalls options =
     [ListReviewsCall (payload_owner (payload options)) (repo (payload options))
        (number (pr (payload options))),
      ListReviewRequestsCall (payload_owner (payload options)) (repo (payload options))
        (number (pr (payload options)))]"

text \<open>
  The third task once the two calls have been issued; its events are those that follow
  them.
\<close>

definition announceTask ::
  "(int \<Rightarrow> string) \<Rightarrow> 's slack_api \<Rightarrow> github_api \<Rightarrow> Options \<Rightarrow> Issue \<Rightarrow> 's
     \<Rightarrow> ((error + unit) \<times> event list \<times> 's) option"
where
  "announceTask toLocaleString api gh options data s =
     (let p = payload options
      in case listReviews gh (payload_owner p) (repo p) (number (pr p)) of
           Inl err \<Rightarrow> Some (Inl err, [], s)
         | Inr existingReviews \<Rightarrow>
             (case listReviewRequests gh (payload_owner p) (repo p) (number (pr p)) of
                Inl err \<Rightarrow> Some (Inl err, [], s)
              | Inr existingRequests \<Rightarrow>
                  if hasExisting (author data) existingReviews existingRequests
                  then Some (Inr (), [Log ''had existing review requests, exiting''], s)
                  else
                    (case postMessage api options (''New Pull Request from '' @ owner (pr p))
                            (announcement_blocks toLocaleString options) s of
                       None \<Rightarrow> None
                     | Some (r, evs, s') \<Rightarrow>
                         Some (r, Log (''New Pull Request from '' @ owner (pr p)) # evs, s'))))"

text \<open>
  \<open>await Promise.all(tasks)\<close> rejects when one of the tasks does.  When several tasks
  reject, the error that surfaces is the one that comes first in time; \<open>all_tasks\<close> takes
  the first in the order in which the tasks were created.  The other tasks are not
  cancelled, so their events are part of the run.
\<close>

fun all_tasks :: "(error + unit) list \<Rightarrow> error + unit" where
  "all_tasks [] = Inr ()"
| "all_tasks (Inl err # rs) = Inl err"
| "all_tasks (Inr _ # rs) = all_tasks rs"

definition run_publisher ::
  "(int \<Rightarrow> string) \<Rightarrow> 's slack_api \<Rightarrow> github_api \<Rightarrow> Options \<Rightarrow> 's
     \<Rightarrow> ((error + unit) \<times> event list \<times> 's) option"
where
  "run_publisher toLocaleString api gh options s =
     (if draft (pr (payload options)) then Some (Inr (), [Log ''PR is draft, ignoring''], s)
      else
        (case getIssue gh of
           Inl err \<Rightarrow> Some (Inl err, [GetIssueCall], s)
         | Inr data \<Rightarrow>
             (case hasWriteAccess gh (author data) of
                Inl err \<Rightarrow>
                  Some (Inl err, [GetIssueCall, HasWriteAccessCall (user_name (author data))], s)
              | Inr access \<Rightarrow>
                  if \<not> access then
                    Some (Inr (),
                          [GetIssueCall, HasWriteAccessCall (user_name (author data)),
                           Log ''Issue author not team member, ignoring''], s)
                  else
                    (case announceTask toLocaleString api gh options data s of
                       None \<Rightarrow> None
                     | Some (r3, evs3, s') \<Rightarrow>
                         Some (all_tasks [fst (assigneeTask gh data),
                                          fst (milestoneTask gh data), r3],
                               [GetIssueCall, HasWriteAccessCall (user_name (author data))]
                                 @ fst (snd (assigneeTask gh data))
                                 @ fst (snd (milestoneTask gh data))
                                 @ reviewCalls options
                                 @ snd (snd (assigneeTask gh data))
                                 @ snd (snd (milestoneTask gh data))
                                 @ evs3, s')))))"

section \<open>Vocabulary of the statements\<close>

subsection \<open>What the remote side answers\<close>

text \<open>
  \<open>serves api web cursor s rs\<close>: from the world state \<open>s\<close> on, the successive
  \<open>conversations.list\<close> calls that the pagination loop makes (the first with \<open>cursor\<close>,
  each later one with the cursor of the page before) are answered by \<open>rs\<close>, one after the
  other.
\<close>

definition cursor_after :: "error + ConversationsList \<Rightarrow> string option" where
  "cursor_after r = (case r of Inl _ \<Rightarrow> None | Inr p \<Rightarrow> cursor_of (Some p))"

fun serves ::
  "'s slack_api \<Rightarrow> WebClient \<Rightarrow> string option \<Rightarrow> 's \<Rightarrow> (error + ConversationsList) list \<Rightarrow> bool"
where
  "serves api web cursor s [] = True"
| "serves api web cursor s (r # rs) =
     (fst (conversations_list api web cursor s) = r
      \<and> serves api web (cursor_after r) (snd (conversations_list api web cursor s)) rs)"

text \<open>A page that announces a further page.\<close>

definition has_next :: "ConversationsList \<Rightarrow> bool" where
  "has_next p = truthy_string (cursor_of (Some p))"

text \<open>The \<open>conversations.list\<close> calls that fetch the responses \<open>rs\<close>, with their cursors.\<close>

fun list_calls ::
  "WebClient \<Rightarrow> string option \<Rightarrow> (error + ConversationsList) list \<Rightarrow> event list"
where
  "list_calls web cursor [] = []"
| "list_calls web cursor (r # rs) =
     ConversationsListCall web cursor # list_calls web (cursor_after r) rs"

text \<open>
  \<open>thread_answers api client channel answer m\<close>: whenever the replies of \<open>m\<close> are asked
  for, the call returns the response \<open>answer (ts m)\<close>.
\<close>

definition thread_answers ::
  "'s slack_api \<Rightarrow> WebClient \<Rightarrow> string \<Rightarrow> (string \<Rightarrow> MessagesResponse) \<Rightarrow> SlackMessage \<Rightarrow> bool"
where
  "thread_answers api client channel answer m =
     (\<forall>s. fst (conversations_replies api client channel (ts m) s) = Inr (answer (ts m)))"

text \<open>
  \<open>delete_answers api client elevated channel r m\<close>: whenever the deletion loop asks for
  \<open>m\<close> to be deleted, the call yields \<open>r\<close>.
\<close>

definition delete_answers ::
  "'s slack_api \<Rightarrow> WebClient \<Rightarrow> WebClient option \<Rightarrow> string \<Rightarrow> error + unit \<Rightarrow> SlackMessage \<Rightarrow> bool"
where
  "delete_answers api client elevated channel r m =
     (\<forall>s. fst (chat_delete api (fst (deleteClient client elevated)) channel (ts m)
                 (snd (deleteClient client elevated)) s) = r)"

subsection \<open>Reading the events\<close>

definition not_tombstone :: "SlackMessage \<Rightarrow> bool" where
  "not_tombstone m = (subtype m \<noteq> Some ''tombstone'')"

text \<open>The \<open>chat.delete\<close> call that the deletion loop issues for a message.\<close>

definition delete_call :: "WebClient \<Rightarrow> WebClient option \<Rightarrow> string \<Rightarrow> SlackMessage \<Rightarrow> event" where
  "delete_call client elevated channel m =
     ChatDeleteCall (fst (deleteClient client elevated)) channel (ts m)
       (snd (deleteClient client elevated))"


text \<open>Whether an event is a posted chat message.\<close>

fun is_post :: "event \<Rightarrow> bool" where
  "is_post (ChatPostMessageCall w t c b l) = True"
| "is_post e = False"

text \<open>What a thread response contributes to \<open>replies\<close>: all but its first message.\<close>

definition pushed_replies :: "MessagesResponse \<Rightarrow> SlackMessage list" where
  "pushed_replies response =
     (case (ok response, messages response) of
        (True, Some thread) \<Rightarrow> drop 1 thread
      | _ \<Rightarrow> [])"

text \<open>
  A message whose replies are fetched (\<open>if (message.reply_count)\<close>), a thread response
  that the loop treats as a failure, and the events of one fetch that yields a response.
\<close>

definition has_replies :: "SlackMessage \<Rightarrow> bool" where
  "has_replies m = truthy_number (reply_count m)"

definition fetch_failed :: "MessagesResponse \<Rightarrow> bool" where
  "fetch_failed response = (\<not> ok response \<or> messages response = None)"

definition fetch_events ::
  "WebClient \<Rightarrow> string \<Rightarrow> (string \<Rightarrow> MessagesResponse) \<Rightarrow> SlackMessage \<Rightarrow> event list"
where
  "fetch_events client channel answer m =
     ConversationsRepliesCall client channel (ts m)
       # (if fetch_failed (answer (ts m)) then [Log ''Error getting messages replies''] else [])"

text \<open>The URLs of the action controls of a message, in order.\<close>

fun action_urls :: "KnownBlock list \<Rightarrow> string list" where
  "action_urls [] = []"
| "action_urls (Actions bs # blocks) = map button_url bs @ action_urls blocks"
| "action_urls (Section t # blocks) = action_urls blocks"

section \<open>Example data\<close>

text \<open>Concrete inputs on which the theorems below are instantiated.\<close>

text \<open>An ordinary message that a human approver has ticked.\<close>

definition checked_message :: SlackMessage where
  "checked_message =
     \<lparr> subtype = None, msg_text = ''LGTM'', reply_count = None, ts = ''1700000000.000100'',
       reactions = Some [\<lparr> reaction_name = ''white_check_mark'', reaction_count = 1,
                           reaction_users = [''U1''] \<rparr>] \<rparr>"

text \<open>
  A small Slack: the world state is the list of timestamps deleted so far.  Listing,
  history and threads are given by tables; a protected message can be deleted only by a
  call made as the user.
\<close>

definition scripted_api ::
  "(string option \<Rightarrow> error + ConversationsList) \<Rightarrow> (error + MessagesResponse)
     \<Rightarrow> (string \<Rightarrow> error + MessagesResponse) \<Rightarrow> (string \<Rightarrow> bool) \<Rightarrow> string list slack_api"
where
  "scripted_api list_page history thread protected =
     \<lparr> conversations_list = (\<lambda>web cursor s. (list_page cursor, s)),
       conversations_history = (\<lambda>web channel limit s. (history, s)),
       conversations_replies = (\<lambda>web channel t s. (thread t, s)),
       chat_delete =
         (\<lambda>web channel t as_user s.
            if protected t \<and> \<not> as_user then (Inl (Error ''cant_delete_message''), s)
            else (Inr (), s @ [t])),
       chat_postMessage = (\<lambda>web message channel blocks link_names s. (Inr (), s)) \<rparr>"

text \<open>Two pages of channels; the bot is a member of two of the three channels.\<close>

definition first_page :: ConversationsList where
  "first_page =
     \<lparr> channels =
         [\<lparr> channel_id = ''C01'', channel_name = ''general'', is_member = False \<rparr>,
          \<lparr> channel_id = ''C02'', channel_name = ''codereview'', is_member = True \<rparr>],
       response_metadata = Some \<lparr> next_cursor = Some ''dGVhbTpD'' \<rparr> \<rparr>"

definition last_page :: ConversationsList where
  "last_page =
     \<lparr> channels = [\<lparr> channel_id = ''C03'', channel_name = ''builds'', is_member = True \<rparr>],
       response_metadata = Some \<lparr> next_cursor = Some [] \<rparr> \<rparr>"

definition two_pages :: "string option \<Rightarrow> error + ConversationsList" where
  "two_pages cursor =
     (case cursor of
        None \<Rightarrow> Inr first_page
      | Some c \<Rightarrow> if c = ''dGVhbTpD'' then Inr last_page else Inl (Error ''invalid_cursor''))"

text \<open>The same listing when the second page cannot be fetched.\<close>

definition broken_pages :: "string option \<Rightarrow> error + ConversationsList" where
  "broken_pages cursor =
     (case cursor of None \<Rightarrow> Inr first_page | Some c \<Rightarrow> Inl (Error ''ratelimited''))"

definition no_history :: "error + MessagesResponse" where
  "no_history = Inr \<lparr> ok = True, messages = Some [] \<rparr>"

definition no_thread :: "string \<Rightarrow> error + MessagesResponse" where
  "no_thread t = Inr \<lparr> ok = True, messages = Some [] \<rparr>"

text \<open>Messages of a channel history, and the threads below two of them.\<close>

definition example_url :: string where
  "example_url = ''https://github.com/o/r/pull/7''"

definition announcement :: SlackMessage where
  "announcement =
     \<lparr> subtype = None, msg_text = ''Review https://github.com/o/r/pull/7 please'',
       reply_count = Some 2, ts = ''100.1'', reactions = None \<rparr>"

definition reply_a :: SlackMessage where
  "reply_a =
     \<lparr> subtype = None, msg_text = ''looking'', reply_count = None, ts = ''100.2'',
       reactions = None \<rparr>"

definition reply_b :: SlackMessage where
  "reply_b =
     \<lparr> subtype = None, msg_text = ''done'', reply_count = None, ts = ''100.3'',
       reactions = None \<rparr>"

definition chatter :: SlackMessage where
  "chatter =
     \<lparr> subtype = None, msg_text = ''lunch?'', reply_count = None, ts = ''099.9'',
       reactions = None \<rparr>"

definition deleted_root :: SlackMessage where
  "deleted_root =
     \<lparr> subtype = Some ''tombstone'', msg_text = ''This message was deleted.'',
       reply_count = Some 1, ts = ''098.1'', reactions = None \<rparr>"

definition orphan_reply :: SlackMessage where
  "orphan_reply =
     \<lparr> subtype = None, msg_text = ''ok'', reply_count = None, ts = ''098.2'',
       reactions = None \<rparr>"

definition example_threads :: "string \<Rightarrow> MessagesResponse" where
  "example_threads t =
     (if t = ''100.1'' then \<lparr> ok = True, messages = Some [announcement, reply_a, reply_b] \<rparr>
      else if t = ''098.1'' then \<lparr> ok = True, messages = Some [deleted_root, orphan_reply] \<rparr>
      else \<lparr> ok = False, messages = None \<rparr>)"

text \<open>Threads that cannot be read: the response is not \<open>ok\<close>, or the call throws.\<close>

definition unreadable_threads :: "string \<Rightarrow> MessagesResponse" where
  "unreadable_threads t = \<lparr> ok = False, messages = None \<rparr>"

definition throwing_threads :: "string \<Rightarrow> error + MessagesResponse" where
  "throwing_threads t = Inl (Error ''ratelimited'')"

text \<open>Three notes on the pull request; the second was written by a human.\<close>

definition note_a :: SlackMessage where
  "note_a =
     \<lparr> subtype = None, msg_text = ''https://github.com/o/r/pull/7'', reply_count = None,
       ts = ''101.1'', reactions = None \<rparr>"

definition human_note :: SlackMessage where
  "human_note =
     \<lparr> subtype = None, msg_text = ''see https://github.com/o/r/pull/7'', reply_count = None,
       ts = ''101.2'', reactions = None \<rparr>"

definition note_b :: SlackMessage where
  "note_b =
     \<lparr> subtype = None, msg_text = ''https://github.com/o/r/pull/7 again'', reply_count = None,
       ts = ''101.3'', reactions = None \<rparr>"

definition history_of :: "SlackMessage list \<Rightarrow> error + MessagesResponse" where
  "history_of msgs = Inr \<lparr> ok = True, messages = Some msgs \<rparr>"

definition example_deleter :: CodeReviewChatDeleter where
  "example_deleter = new_CodeReviewChatDeleter ''xoxb'' None ''codereview'' example_url"

text \<open>A pull request that changes no file, and the options of a run on it.\<close>

definition empty_pr :: PR where
  "empty_pr =
     \<lparr> number = 7, body = ''WIP'', additions = 0, deletions = 0, changed_files = 0,
       url = ''https://github.com/o/r/pull/7'', owner = ''alice'', draft = False,
       title = ''Empty commit'' \<rparr>"

definition example_options :: "PR \<Rightarrow> Options" where
  "example_options p =
     \<lparr> options_slackToken = ''xoxb'', codereviewChannel = ''codereview'',
       payload = \<lparr> payload_owner = ''o'', repo = ''r'', repo_full_name = ''o/r'',
                   repo_url = None, pr = p \<rparr> \<rparr>"

text \<open>
  A provider for a pull request of \<open>alice\<close>, who may write, with no assignee and no
  milestone yet, given the reviews and the requested reviewers it reports.
\<close>

definition example_github :: "Review list \<Rightarrow> string list \<Rightarrow> github_api" where
  "example_github reviews requested =
     \<lparr> getIssue = Inr \<lparr> author = \<lparr> user_name = ''alice'' \<rparr>, assignee = None, milestone = None \<rparr>,
       hasWriteAccess = (\<lambda>u. Inr True),
       addAssignee = (\<lambda>a. Inr ()),
       getCurrentRepoMilestone = Inr (Some (Milestone 42)),
       setMilestone = (\<lambda>m. Inr ()),
       listReviews = (\<lambda>o_name r_name n. Inr (Some \<lparr> reviews_data = Some reviews \<rparr>)),
       listReviewRequests =
         (\<lambda>o_name r_name n. Inr (Some \<lparr> requests_data = Some \<lparr> users = Some requested \<rparr> \<rparr>)) \<rparr>"

section \<open>Properties of the Stale-Message Reconciler's classification\<close>

lemma str_includes_iff: "str_includes s p \<longleftrightarrow> (\<exists>a b. s = a @ p @ b)"
proof (induction s)
  case Nil
  then show ?case by auto
next
  case (Cons c cs)
  have "(\<exists>a b. c # cs = a @ p @ b) \<longleftrightarrow> prefix p (c # cs) \<or> (\<exists>a b. cs = a @ p @ b)"
  proof
    assume "\<exists>a b. c # cs = a @ p @ b"
    then obtain a b where ab: "c # cs = a @ p @ b" by blast
    show "prefix p (c # cs) \<or> (\<exists>a b. cs = a @ p @ b)"
    proof (cases a)
      case Nil
      with ab show ?thesis by (auto simp: prefix_def)
    next
      case (Cons x xs)
      with ab have "cs = xs @ p @ b" by simp
      then show ?thesis by blast
    qed
  next
    assume "prefix p (c # cs) \<or> (\<exists>a b. cs = a @ p @ b)"
    then show "\<exists>a b. c # cs = a @ p @ b"
    proof
      assume "prefix p (c # cs)"
      then obtain b where "c # cs = p @ b" by (auto simp: prefix_def)
      then have "c # cs = [] @ p @ b" by simp
      then show ?thesis by blast
    next
      assume "\<exists>a b. cs = a @ p @ b"
      then obtain a b where "cs = a @ p @ b" by blast
      then have "c # cs = (c # a) @ p @ b" by simp
      then show ?thesis by blast
    qed
  qed
  with Cons show ?case by simp
qed

lemma isMessageToDelete_iff:
  "isMessageToDelete this m \<longleftrightarrow>
     (\<exists>st. subtype m = Some st \<and> st \<noteq> [])
     \<or> (\<exists>a b. msg_text m = a @ prUrl this @ b)
     \<or> (elevatedClient this \<noteq> None
          \<and> (\<exists>rs r. reactions m = Some rs \<and> r \<in> set rs \<and> reaction_name r = ''white_check_mark''))"
  by (auto simp: isMessageToDelete_def Let_def truthy_string_def str_includes_iff list_ex_iff
           split: option.splits)

text \<open>
  Claim C1.  A message of the fetched history is selected for deletion exactly when its
  subtype is a non-empty string, or its text contains the pull request's URL as a
  substring, or an elevated client is configured (the elevated token is a non-empty
  string) and one of the message's reactions is named \<open>white_check_mark\<close>.  In particular,
  without an elevated client a message with no subtype and no URL match is not selected,
  whatever its reactions are.
\<close>

theorem deleter_candidate_iff:
  "(m \<in> set (messagesToDelete (new_CodeReviewChatDeleter token elevatedToken channel pr_url) msgs)
     \<longleftrightarrow>
    m \<in> set msgs \<and>
     ((\<exists>st. subtype m = Some st \<and> st \<noteq> [])
      \<or> (\<exists>a b. msg_text m = a @ pr_url @ b)
      \<or> ((\<exists>t. elevatedToken = Some t \<and> t \<noteq> [])
          \<and> (\<exists>rs r. reactions m = Some rs \<and> r \<in> set rs
                \<and> reaction_name r = ''white_check_mark''))))
   \<and>
   ((elevatedToken = None \<or> elevatedToken = Some []) \<and> \<not> truthy_string (subtype m)
      \<and> \<not> (\<exists>a b. msg_text m = a @ pr_url @ b)
    \<longrightarrow> m \<notin> set (messagesToDelete
                    (new_CodeReviewChatDeleter token elevatedToken channel pr_url) msgs))"
  unfolding messagesToDelete_def set_filter mem_Collect_eq isMessageToDelete_iff
  by (auto simp: new_CodeReviewChatDeleter_def truthy_string_def split: option.splits)

theorem deleter_candidate_iff_witness:
  "checked_message \<notin> set (messagesToDelete
      (new_CodeReviewChatDeleter ''xoxb'' None ''codereview'' ''https://github.com/o/r/pull/7'')
      [checked_message])
   \<and> checked_message \<in> set (messagesToDelete
      (new_CodeReviewChatDeleter ''xoxb'' (Some ''xoxp'') ''codereview''
         ''https://github.com/o/r/pull/7'')
      [checked_message])"
  using deleter_candidate_iff [of checked_message "''xoxb''" None "''codereview''"
          "''https://github.com/o/r/pull/7''" "[checked_message]"]
        deleter_candidate_iff [of checked_message "''xoxb''" "Some ''xoxp''" "''codereview''"
          "''https://github.com/o/r/pull/7''" "[checked_message]"]
  by (simp add: checked_message_def truthy_string_def str_includes_iff [symmetric])

section \<open>Properties of the Channel Resolver\<close>

subsection \<open>The pagination loop\<close>

lemma loop_all_pages:
  "serves api web (cursor_of groups) s (map Inr pages) \<Longrightarrow> pages \<noteq> []
   \<Longrightarrow> \<forall>p \<in> set (butlast pages). has_next p \<Longrightarrow> \<not> has_next (last pages)
   \<Longrightarrow> \<exists>s'. listAllMemberships_loop api web groups chans evs s =
          Some (chans @ concat (map channels pages),
                evs @ list_calls web (cursor_of groups) (map Inr pages), s')"
proof (induction pages arbitrary: groups chans evs s)
  case Nil
  then show ?case by simp
next
  case (Cons p ps)
  obtain s1 where call: "conversations_list api web (cursor_of groups) s = (Inr p, s1)"
    using Cons.prems(1) by (cases "conversations_list api web (cursor_of groups) s") auto
  show ?case
  proof (cases "ps = []")
    case True
    with Cons.prems(4) have "\<not> truthy_string (cursor_of (Some p))" by (simp add: has_next_def)
    with call True show ?thesis
      by (subst listAllMemberships_loop.simps) simp
  next
    case False
    with Cons.prems(3) have more: "truthy_string (cursor_of (Some p))"
      by (simp add: has_next_def)
    have "serves api web (cursor_of (Some p)) s1 (map Inr ps)"
      using Cons.prems(1) call by (simp add: cursor_after_def)
    moreover have "\<forall>q \<in> set (butlast ps). has_next q" using Cons.prems(3) False by simp
    moreover have "\<not> has_next (last ps)" using Cons.prems(4) False by simp
    ultimately obtain s' where
      "listAllMemberships_loop api web (Some p) (chans @ channels p)
         (evs @ [ConversationsListCall web (cursor_of groups)]) s1 =
       Some ((chans @ channels p) @ concat (map channels ps),
             (evs @ [ConversationsListCall web (cursor_of groups)])
               @ list_calls web (cursor_of (Some p)) (map Inr ps), s')"
      using Cons.IH [OF _ False, of "Some p" s1] by blast
    with call more show ?thesis
      by (subst listAllMemberships_loop.simps) (simp add: cursor_after_def)
  qed
qed

lemma loop_failed_page:
  "serves api web (cursor_of groups) s (map Inr pages @ Inl err # rest)
   \<Longrightarrow> \<forall>p \<in> set pages. has_next p
   \<Longrightarrow> \<exists>s'. listAllMemberships_loop api web groups chans evs s =
          Some (chans @ concat (map channels pages),
                evs @ list_calls web (cursor_of groups) (map Inr pages @ [Inl err])
                    @ [Log (''Error listing channels: '' @ error_to_string err)], s')"
proof (induction pages arbitrary: groups chans evs s)
  case Nil
  then obtain s1 where "conversations_list api web (cursor_of groups) s = (Inl err, s1)"
    by (cases "conversations_list api web (cursor_of groups) s") auto
  then show ?case
    by (subst listAllMemberships_loop.simps) simp
next
  case (Cons p ps)
  obtain s1 where call: "conversations_list api web (cursor_of groups) s = (Inr p, s1)"
    using Cons.prems(1) by (cases "conversations_list api web (cursor_of groups) s") auto
  have more: "truthy_string (cursor_of (Some p))"
    using Cons.prems(2) by (simp add: has_next_def)
  have "serves api web (cursor_of (Some p)) s1 (map Inr ps @ Inl err # rest)"
    using Cons.prems(1) call by (simp add: cursor_after_def)
  moreover have "\<forall>q \<in> set ps. has_next q" using Cons.prems(2) by simp
  ultimately obtain s' where
    "listAllMemberships_loop api web (Some p) (chans @ channels p)
       (evs @ [ConversationsListCall web (cursor_of groups)]) s1 =
     Some ((chans @ channels p) @ concat (map channels ps),
           (evs @ [ConversationsListCall web (cursor_of groups)])
             @ list_calls web (cursor_of (Some p)) (map Inr ps @ [Inl err])
             @ [Log (''Error listing channels: '' @ error_to_string err)], s')"
    using Cons.IH [of "Some p" s1] by blast
  with call more show ?case
    by (subst listAllMemberships_loop.simps) (simp add: cursor_after_def)
qed

lemma find_member_channel:
  "(find (\<lambda>m. channel_name m = name) (filter is_member (concat (map channels pages))) = None)
   \<longleftrightarrow> \<not> (\<exists>p \<in> set pages. \<exists>c \<in> set (channels p). is_member c \<and> channel_name c = name)"
  by (auto simp: find_None_iff)

subsection \<open>The listing and the channel lookup\<close>

text \<open>
  Claim C2.  When the server answers the successive listing calls with the pages
  \<open>pages\<close>, each page but the last carrying a cursor and the last carrying none (absent
  or empty), the loop ends and \<open>listAllMemberships\<close> returns the entries of all the pages
  whose \<open>is_member\<close> flag is set: as a list, the concatenation of the pages filtered by
  the flag, hence as a set exactly the union of the pages' member entries.
\<close>

theorem listAllMemberships_all_pages:
  assumes "serves api web None s (map Inr pages)"
    and "pages \<noteq> []"
    and "\<forall>p \<in> set (butlast pages). has_next p"
    and "\<not> has_next (last pages)"
  shows "\<exists>memberships evs s'.
           listAllMemberships api web s = Some (memberships, evs, s')
           \<and> memberships = filter is_member (concat (map channels pages))
           \<and> set memberships = {c. is_member c \<and> (\<exists>p \<in> set pages. c \<in> set (channels p))}"
proof -
  have "serves api web (cursor_of None) s (map Inr pages)"
    using assms(1) by (simp add: cursor_of_def)
  from loop_all_pages [OF this assms(2-4), of "[]" "[]"]
  obtain s' where "listAllMemberships_loop api web None [] [] s =
      Some (concat (map channels pages), list_calls web (cursor_of None) (map Inr pages), s')"
    by auto
  then show ?thesis
    by (auto simp: listAllMemberships_def)
qed

theorem listAllMemberships_all_pages_witness:
  "(\<exists>evs s'. listAllMemberships (scripted_api two_pages no_history no_thread (\<lambda>t. False))
       (WebClient ''xoxb'') [] =
     Some ([\<lparr> channel_id = ''C02'', channel_name = ''codereview'', is_member = True \<rparr>,
            \<lparr> channel_id = ''C03'', channel_name = ''builds'', is_member = True \<rparr>], evs, s'))"
  using listAllMemberships_all_pages
          [of "scripted_api two_pages no_history no_thread (\<lambda>t. False)" "WebClient ''xoxb''"
              "[]" "[first_page, last_page]"]
  by (simp add: scripted_api_def two_pages_def cursor_after_def cursor_of_def has_next_def
        truthy_string_def first_page_def last_page_def)

text \<open>
  Claim C6.  When the pages \<open>pages\<close> are served, each with a cursor, and the next
  listing call throws, the loop ends there: the calls made are those for \<open>pages\<close> and
  the failed one, followed by the log line, whatever the server would have answered to
  further calls (\<open>rest\<close>).  \<open>getChat\<close> then goes on with the member channels of
  \<open>pages\<close>: with a configured (non-empty) channel name it returns the first member
  channel of that name, and it throws \<open>Slack channel not found\<close> exactly when no member
  channel accumulated from \<open>pages\<close> has the name.
\<close>

theorem getChat_failed_page:
  assumes "serves api (WebClient token) None s (map Inr pages @ Inl err # rest)"
    and "\<forall>p \<in> set pages. has_next p"
    and "name \<noteq> []"
  shows "\<exists>r s'.
           getChat api token name s =
             Some (r, list_calls (WebClient token) None (map Inr pages @ [Inl err])
                        @ [Log (''Error listing channels: '' @ error_to_string err)], s')
           \<and> r = (case find (\<lambda>m. channel_name m = name)
                          (filter is_member (concat (map channels pages))) of
                    None \<Rightarrow> Inl (Error (''Slack channel not found: '' @ name))
                  | Some c \<Rightarrow> Inr (WebClient token, channel_id c))
           \<and> ((\<exists>e. r = Inl e) \<longleftrightarrow>
                \<not> (\<exists>p \<in> set pages. \<exists>c \<in> set (channels p). is_member c \<and> channel_name c = name))"
proof -
  have "serves api (WebClient token) (cursor_of None) s (map Inr pages @ Inl err # rest)"
    using assms(1) by (simp add: cursor_of_def)
  from loop_failed_page [OF this assms(2), of "[]" "[]"]
  obtain s' where "listAllMemberships_loop api (WebClient token) None [] [] s =
      Some (concat (map channels pages),
            list_calls (WebClient token) (cursor_of None) (map Inr pages @ [Inl err])
              @ [Log (''Error listing channels: '' @ error_to_string err)], s')"
    by auto
  then have "listAllMemberships api (WebClient token) s =
      Some (filter is_member (concat (map channels pages)),
            list_calls (WebClient token) None (map Inr pages @ [Inl err])
              @ [Log (''Error listing channels: '' @ error_to_string err)], s')"
    by (simp add: listAllMemberships_def cursor_of_def)
  then show ?thesis
    using assms(3) find_member_channel [of name pages]
    by (cases "find (\<lambda>m. channel_name m = name)
                 (filter is_member (concat (map channels pages)))")
       (simp_all add: getChat_def)
qed

theorem getChat_failed_page_witness:
  "(\<exists>s'. getChat (scripted_api broken_pages no_history no_thread (\<lambda>t. False))
       ''xoxb'' ''codereview'' [] =
     Some (Inr (WebClient ''xoxb'', ''C02''),
           [ConversationsListCall (WebClient ''xoxb'') None,
            ConversationsListCall (WebClient ''xoxb'') (Some ''dGVhbTpD''),
            Log ''Error listing channels: Error: ratelimited''], s'))
   \<and> (\<exists>s'. getChat (scripted_api broken_pages no_history no_thread (\<lambda>t. False))
       ''xoxb'' ''builds'' [] =
     Some (Inl (Error ''Slack channel not found: builds''),
           [ConversationsListCall (WebClient ''xoxb'') None,
            ConversationsListCall (WebClient ''xoxb'') (Some ''dGVhbTpD''),
            Log ''Error listing channels: Error: ratelimited''], s'))"
  using getChat_failed_page
          [of "scripted_api broken_pages no_history no_thread (\<lambda>t. False)" "''xoxb''"
              "[]" "[first_page]" "Error ''ratelimited''" "[]" "''codereview''"]
        getChat_failed_page
          [of "scripted_api broken_pages no_history no_thread (\<lambda>t. False)" "''xoxb''"
              "[]" "[first_page]" "Error ''ratelimited''" "[]" "''builds''"]
  by (simp add: scripted_api_def broken_pages_def cursor_after_def cursor_of_def has_next_def
        truthy_string_def first_page_def)

section \<open>Properties of the reconciliation pass\<close>

subsection \<open>The deletion loop\<close>

lemma deleteLoop_skip:
  "\<not> not_tombstone m \<Longrightarrow>
   deleteLoop api client elevated channel (m # rest) s =
     deleteLoop api client elevated channel rest s"
  by (simp add: not_tombstone_def)

lemma deleteLoop_step:
  "not_tombstone m \<Longrightarrow>
   deleteLoop api client elevated channel (m # rest) s =
     (case chat_delete api (fst (deleteClient client elevated)) channel (ts m)
             (snd (deleteClient client elevated)) s of
        (Inl err, s') \<Rightarrow> (Inl err, [delete_call client elevated channel m], s')
      | (Inr _, s') \<Rightarrow>
          (case deleteLoop api client elevated channel rest s' of
             (r, evs, s'') \<Rightarrow> (r, delete_call client elevated channel m # evs, s'')))"
  unfolding delete_call_def by (simp add: not_tombstone_def)

lemma deleteLoop_events:
  "deleteLoop api client elevated channel msgs s = (r, evs, s')
   \<Longrightarrow> \<exists>n. evs = map (delete_call client elevated channel) (take n (filter not_tombstone msgs))"
proof (induction msgs arbitrary: s r evs s')
  case Nil
  then show ?case by simp
next
  case (Cons m rest)
  show ?case
  proof (cases "not_tombstone m")
    case False
    with Cons show ?thesis by (simp add: deleteLoop_skip del: deleteLoop.simps)
  next
    case True
    obtain d s1 where call:
      "chat_delete api (fst (deleteClient client elevated)) channel (ts m)
         (snd (deleteClient client elevated)) s = (d, s1)"
      by (cases "chat_delete api (fst (deleteClient client elevated)) channel (ts m)
                   (snd (deleteClient client elevated)) s")
    show ?thesis
    proof (cases d)
      case (Inl err)
      with Cons.prems call True
      have "evs = map (delete_call client elevated channel) (take 1 (filter not_tombstone (m # rest)))"
        by (simp add: deleteLoop_step del: deleteLoop.simps)
      then show ?thesis by blast
    next
      case (Inr u)
      obtain r2 evs2 s2 where rest: "deleteLoop api client elevated channel rest s1 = (r2, evs2, s2)"
        by (cases "deleteLoop api client elevated channel rest s1") auto
      from Cons.IH [OF rest] obtain n where
        n: "evs2 = map (delete_call client elevated channel) (take n (filter not_tombstone rest))"
        by blast
      from Cons.prems call True Inr rest
      have "evs = delete_call client elevated channel m # evs2"
        by (simp add: deleteLoop_step del: deleteLoop.simps)
      with n True
      have "evs = map (delete_call client elevated channel)
                    (take (Suc n) (filter not_tombstone (m # rest)))"
        by simp
      then show ?thesis by blast
    qed
  qed
qed




lemma deleteLoop_failure:
  assumes "\<forall>m \<in> set pre. not_tombstone m \<longrightarrow> delete_answers api client elevated channel (Inr ()) m"
    and "not_tombstone m"
    and "delete_answers api client elevated channel (Inl err) m"
  shows "\<exists>s'. deleteLoop api client elevated channel (pre @ m # post) s =
          (Inl err, map (delete_call client elevated channel) (filter not_tombstone pre @ [m]), s')"
  using assms(1)
proof (induction pre arbitrary: s)
  case Nil
  from assms(3) obtain s1 where
    "chat_delete api (fst (deleteClient client elevated)) channel (ts m)
       (snd (deleteClient client elevated)) s = (Inl err, s1)"
    by (cases "chat_delete api (fst (deleteClient client elevated)) channel (ts m)
                 (snd (deleteClient client elevated)) s")
       (auto simp: delete_answers_def dest: spec [of _ s])
  with assms(2) show ?case
    by (simp add: deleteLoop_step del: deleteLoop.simps)
next
  case (Cons p pre)
  from Cons.prems have rest: "\<forall>m \<in> set pre. not_tombstone m \<longrightarrow>
      delete_answers api client elevated channel (Inr ()) m"
    by simp
  show ?case
  proof (cases "not_tombstone p")
    case False
    with Cons.IH [OF rest, of s] show ?thesis by (simp add: deleteLoop_skip del: deleteLoop.simps)
  next
    case True
    with Cons.prems obtain s1 where call:
      "chat_delete api (fst (deleteClient client elevated)) channel (ts p)
         (snd (deleteClient client elevated)) s = (Inr (), s1)"
      by (cases "chat_delete api (fst (deleteClient client elevated)) channel (ts p)
                   (snd (deleteClient client elevated)) s")
         (auto simp: delete_answers_def dest: spec [of _ s])
    from Cons.IH [OF rest, of s1] obtain s' where
      "deleteLoop api client elevated channel (pre @ m # post) s1 =
         (Inl err, map (delete_call client elevated channel) (filter not_tombstone pre @ [m]), s')"
      by blast
    with call True show ?thesis
      by (simp add: deleteLoop_step del: deleteLoop.simps)
  qed
qed

subsection \<open>The reply expansion\<close>

lemma fetchReplies_skip:
  "\<not> has_replies m \<Longrightarrow>
   fetchReplies api client channel (m # rest) s = fetchReplies api client channel rest s"
  by (simp add: has_replies_def)

lemma fetchReplies_step:
  "has_replies m \<Longrightarrow> conversations_replies api client channel (ts m) s = (Inr response, s1)
   \<Longrightarrow> fetchReplies api client channel rest s1 = (Inr replies, evs, s2)
   \<Longrightarrow> fetchReplies api client channel (m # rest) s =
         (Inr (pushed_replies response @ replies),
          ConversationsRepliesCall client channel (ts m)
            # (if fetch_failed response then [Log ''Error getting messages replies''] else [])
            @ evs, s2)"
  by (auto simp: has_replies_def pushed_replies_def fetch_failed_def
           split: option.splits bool.splits)

lemma fetchReplies_answered:
  "\<forall>m \<in> set cands. has_replies m \<longrightarrow> thread_answers api client channel answer m
   \<Longrightarrow> \<exists>s'. fetchReplies api client channel cands s =
          (Inr (concat (map (\<lambda>m. pushed_replies (answer (ts m))) (filter has_replies cands))),
           concat (map (fetch_events client channel answer) (filter has_replies cands)), s')"
proof (induction cands arbitrary: s)
  case Nil
  then show ?case by simp
next
  case (Cons m rest)
  from Cons.prems have rest: "\<forall>m \<in> set rest. has_replies m \<longrightarrow>
      thread_answers api client channel answer m"
    by simp
  show ?case
  proof (cases "has_replies m")
    case False
    with Cons.IH [OF rest, of s] show ?thesis
      by (simp add: fetchReplies_skip del: fetchReplies.simps)
  next
    case True
    with Cons.prems obtain s1 where call:
      "conversations_replies api client channel (ts m) s = (Inr (answer (ts m)), s1)"
      by (cases "conversations_replies api client channel (ts m) s")
         (auto simp: thread_answers_def dest: spec [of _ s])
    from Cons.IH [OF rest, of s1] obtain s' where
      "fetchReplies api client channel rest s1 =
         (Inr (concat (map (\<lambda>m. pushed_replies (answer (ts m))) (filter has_replies rest))),
          concat (map (fetch_events client channel answer) (filter has_replies rest)), s')"
      by blast
    from fetchReplies_step [OF True call this] True
    have "fetchReplies api client channel (m # rest) s =
            (Inr (pushed_replies (answer (ts m))
                    @ concat (map (\<lambda>m. pushed_replies (answer (ts m))) (filter has_replies rest))),
             fetch_events client channel answer m
               @ concat (map (fetch_events client channel answer) (filter has_replies rest)), s')"
      unfolding fetch_events_def [of client channel answer m] by simp
    with True show ?thesis
      by (simp del: fetchReplies.simps)
  qed
qed




subsection \<open>The pass as a whole\<close>

text \<open>
  \<open>run\<close> is \<open>getChat\<close> followed by the pass in the channel found; the statements below
  are about the pass.
\<close>

lemma run_deleter_unfold:
  "getChat api (slackToken this) (notificationChannel this) s0 = Some (Inr (client, channel), evs0, s)
   \<Longrightarrow> run_in_channel this api client channel s = (r, evs, s')
   \<Longrightarrow> run_deleter this api s0 = Some (r, evs0 @ evs, s')"
  by (simp add: run_deleter_def)

lemma run_in_channel_unfold:
  assumes "conversations_history api client channel 20 s =
             (Inr \<lparr> ok = True, messages = Some msgs \<rparr>, s1)"
    and "fetchReplies api client channel (messagesToDelete this msgs) s1 = (Inr replies, evs2, s2)"
    and "deleteLoop api client (elevatedClient this) channel
           (messagesToDelete this msgs @ replies) s2 = (d, evs3, s3)"
  shows "run_in_channel this api client channel s =
           (Inr (),
            ConversationsHistoryCall client channel 20 # evs2 @ evs3
              @ (if messagesToDelete this msgs @ replies = [] then [Log ''no message found, exiting'']
                 else (case d of
                         Inl e \<Rightarrow> [Log ''error deleting message, probably posted by some human'']
                       | Inr u \<Rightarrow> [])), s3)"
proof (cases "messagesToDelete this msgs @ replies = []")
  case True
  with assms(3) have "evs3 = []" "s3 = s2" by simp_all
  with True assms(1,2) show ?thesis
    by (simp add: run_in_channel_def)
next
  case False
  with assms show ?thesis
    by (cases d) (auto simp: run_in_channel_def deleteMessages_def)
qed



text \<open>
  Claim C7.  A pass that has read the history and the threads returns normally, whatever
  the delete calls do.  When the deletion loop is ended by a \<open>chat.delete\<close> that throws,
  the events of the pass after the thread fetches are the delete calls for an initial
  part of the candidates that are not tombstones, the last of them being the one that
  threw, and then the log line; nothing follows.  In particular, let the candidates be
  \<open>pre @ m # post\<close>, where the deletions of the messages of \<open>pre\<close> succeed and the
  deletion of \<open>m\<close> throws: the delete calls are those for the messages of \<open>pre\<close> that are
  not tombstones and the one for \<open>m\<close>; nothing is attempted for \<open>post\<close>, and no call that
  could undo a deletion is made.
\<close>

theorem delete_failure_ends_pass:
  assumes "conversations_history api client channel 20 s =
             (Inr \<lparr> ok = True, messages = Some msgs \<rparr>, s1)"
    and "fetchReplies api client channel (messagesToDelete this msgs) s1 = (Inr replies, evs2, s2)"
  shows "fst (run_in_channel this api client channel s) = Inr ()
     \<and> (\<forall>e evs3 s3.
           deleteLoop api client (elevatedClient this) channel
             (messagesToDelete this msgs @ replies) s2 = (Inl e, evs3, s3) \<longrightarrow>
           run_in_channel this api client channel s =
             (Inr (),
              ConversationsHistoryCall client channel 20 # evs2 @ evs3
                @ [Log ''error deleting message, probably posted by some human''], s3)
           \<and> (\<exists>n. evs3 = map (delete_call client (elevatedClient this) channel)
                             (take n (filter not_tombstone
                                        (messagesToDelete this msgs @ replies)))))
     \<and> (messagesToDelete this msgs @ replies = pre @ m # post
         \<and> (\<forall>p \<in> set pre. not_tombstone p \<longrightarrow>
               delete_answers api client (elevatedClient this) channel (Inr ()) p)
         \<and> not_tombstone m
         \<and> delete_answers api client (elevatedClient this) channel (Inl err) m \<longrightarrow>
         (\<exists>s'. run_in_channel this api client channel s =
            (Inr (),
             ConversationsHistoryCall client channel 20 # evs2
               @ map (delete_call client (elevatedClient this) channel)
                   (filter not_tombstone pre @ [m])
               @ [Log ''error deleting message, probably posted by some human''], s')))"
proof (intro conjI allI impI)
  obtain d evs3 s3 where
    "deleteLoop api client (elevatedClient this) channel
       (messagesToDelete this msgs @ replies) s2 = (d, evs3, s3)"
    by (cases "deleteLoop api client (elevatedClient this) channel
                 (messagesToDelete this msgs @ replies) s2") auto
  from run_in_channel_unfold [OF assms this]
  show "fst (run_in_channel this api client channel s) = Inr ()"
    by simp
next
  fix e evs3 s3
  assume del: "deleteLoop api client (elevatedClient this) channel
      (messagesToDelete this msgs @ replies) s2 = (Inl e, evs3, s3)"
  then have "messagesToDelete this msgs @ replies \<noteq> []"
    by auto
  with run_in_channel_unfold [OF assms del]
  show "run_in_channel this api client channel s =
      (Inr (),
       ConversationsHistoryCall client channel 20 # evs2 @ evs3
         @ [Log ''error deleting message, probably posted by some human''], s3)"
    by simp
  from deleteLoop_events [OF del]
  show "\<exists>n. evs3 = map (delete_call client (elevatedClient this) channel)
                      (take n (filter not_tombstone (messagesToDelete this msgs @ replies)))" .
next
  assume a: "messagesToDelete this msgs @ replies = pre @ m # post
      \<and> (\<forall>p \<in> set pre. not_tombstone p \<longrightarrow>
            delete_answers api client (elevatedClient this) channel (Inr ()) p)
      \<and> not_tombstone m
      \<and> delete_answers api client (elevatedClient this) channel (Inl err) m"
  then have split: "messagesToDelete this msgs @ replies = pre @ m # post"
    and pre: "\<forall>p \<in> set pre. not_tombstone p \<longrightarrow>
          delete_answers api client (elevatedClient this) channel (Inr ()) p"
    and nt: "not_tombstone m"
    and fails: "delete_answers api client (elevatedClient this) channel (Inl err) m"
    by simp_all
  from deleteLoop_failure [OF pre nt fails, of post s2] obtain s3 where
    "deleteLoop api client (elevatedClient this) channel (pre @ m # post) s2 =
       (Inl err,
        map (delete_call client (elevatedClient this) channel) (filter not_tombstone pre @ [m]),
        s3)"
    by blast
  then have "deleteLoop api client (elevatedClient this) channel
               (messagesToDelete this msgs @ replies) s2 =
       (Inl err,
        map (delete_call client (elevatedClient this) channel) (filter not_tombstone pre @ [m]),
        s3)"
    by (simp only: split)
  from run_in_channel_unfold [OF assms this] split
  show "\<exists>s'. run_in_channel this api client channel s =
      (Inr (),
       ConversationsHistoryCall client channel 20 # evs2
         @ map (delete_call client (elevatedClient this) channel)
             (filter not_tombstone pre @ [m])
         @ [Log ''error deleting message, probably posted by some human''], s')"
    by simp
qed

theorem delete_failure_ends_pass_witness:
  "\<exists>s'. run_in_channel example_deleter
      (scripted_api two_pages (history_of [note_a, human_note, note_b])
         (\<lambda>t. Inr (example_threads t)) (\<lambda>t. t = ''101.2''))
      (WebClient ''xoxb'') ''C02'' [] =
    (Inr (),
     [ConversationsHistoryCall (WebClient ''xoxb'') ''C02'' 20,
      ChatDeleteCall (WebClient ''xoxb'') ''C02'' ''101.1'' False,
      ChatDeleteCall (WebClient ''xoxb'') ''C02'' ''101.2'' False,
      Log ''error deleting message, probably posted by some human''], s')"
proof -
  let ?api = "scripted_api two_pages (history_of [note_a, human_note, note_b])
                (\<lambda>t. Inr (example_threads t)) (\<lambda>t. t = ''101.2'')"
  have cands: "messagesToDelete example_deleter [note_a, human_note, note_b] =
      [note_a, human_note, note_b]"
    by (simp add: messagesToDelete_def isMessageToDelete_def example_deleter_def
          new_CodeReviewChatDeleter_def note_a_def human_note_def note_b_def truthy_string_def
          example_url_def)
  have hist: "conversations_history ?api (WebClient ''xoxb'') ''C02'' 20 [] =
      (Inr \<lparr> ok = True, messages = Some [note_a, human_note, note_b] \<rparr>, [])"
    by (simp add: scripted_api_def history_of_def)
  have fetch: "fetchReplies ?api (WebClient ''xoxb'') ''C02''
      (messagesToDelete example_deleter [note_a, human_note, note_b]) [] = (Inr [], [], [])"
    unfolding cands
    by (simp add: note_a_def human_note_def note_b_def truthy_number_def)
  have split: "messagesToDelete example_deleter [note_a, human_note, note_b] @ [] =
      [note_a] @ human_note # [note_b]"
    unfolding cands by simp
  have pre: "\<forall>p \<in> set [note_a]. not_tombstone p \<longrightarrow>
      delete_answers ?api (WebClient ''xoxb'') (elevatedClient example_deleter) ''C02'' (Inr ()) p"
    by (simp add: delete_answers_def scripted_api_def example_deleter_def note_a_def
          new_CodeReviewChatDeleter_def deleteClient_def)
  have nt: "not_tombstone human_note"
    by (simp add: not_tombstone_def human_note_def)
  have fails: "delete_answers ?api (WebClient ''xoxb'') (elevatedClient example_deleter) ''C02''
      (Inl (Error ''cant_delete_message'')) human_note"
    by (simp add: delete_answers_def scripted_api_def example_deleter_def human_note_def
          new_CodeReviewChatDeleter_def deleteClient_def)
  from delete_failure_ends_pass
         [OF hist fetch, of "[note_a]" human_note "[note_b]" "Error ''cant_delete_message''"]
       split pre nt fails
  have "\<exists>s'. run_in_channel example_deleter ?api (WebClient ''xoxb'') ''C02'' [] =
      (Inr (),
       ConversationsHistoryCall (WebClient ''xoxb'') ''C02'' 20 # []
         @ map (delete_call (WebClient ''xoxb'') (elevatedClient example_deleter) ''C02'')
             (filter not_tombstone [note_a] @ [human_note])
         @ [Log ''error deleting message, probably posted by some human''], s')"
    by blast
  then show ?thesis
    by (simp add: delete_call_def not_tombstone_def example_deleter_def
          new_CodeReviewChatDeleter_def deleteClient_def note_a_def human_note_def)
qed



text \<open>
  What the loop does with a failed fetch that it recognises, a response that is not
  \<open>ok\<close> or carries no messages: when every thread fetch of the pass yields a response,
  and the response for the candidate \<open>m\<close> is a failed one, the failure is logged, the
  thread of \<open>m\<close> contributes no reply, the threads of the other candidates are still
  fetched and the pass runs to its end without an error.
\<close>

lemma failed_thread_response_skipped:
  assumes "conversations_history api client channel 20 s =
             (Inr \<lparr> ok = True, messages = Some msgs \<rparr>, s1)"
    and "\<forall>c \<in> set (messagesToDelete this msgs). has_replies c \<longrightarrow>
           thread_answers api client channel answer c"
    and "m \<in> set (messagesToDelete this msgs)"
    and "has_replies m"
    and "fetch_failed (answer (ts m))"
  shows "\<exists>replies evs2 s2.
           fetchReplies api client channel (messagesToDelete this msgs) s1 = (Inr replies, evs2, s2)
           \<and> replies = concat (map (\<lambda>c. pushed_replies (answer (ts c)))
                                (filter has_replies (messagesToDelete this msgs)))
           \<and> pushed_replies (answer (ts m)) = []
           \<and> evs2 = concat (map (fetch_events client channel answer)
                              (filter has_replies (messagesToDelete this msgs)))
           \<and> fetch_events client channel answer m =
               [ConversationsRepliesCall client channel (ts m),
                Log ''Error getting messages replies'']
           \<and> (\<exists>evs3 s3. run_in_channel this api client channel s =
                 (Inr (), ConversationsHistoryCall client channel 20 # evs2 @ evs3, s3))"
proof -
  from fetchReplies_answered [OF assms(2), of s1] obtain s2 where fetch:
    "fetchReplies api client channel (messagesToDelete this msgs) s1 =
       (Inr (concat (map (\<lambda>c. pushed_replies (answer (ts c)))
                      (filter has_replies (messagesToDelete this msgs)))),
        concat (map (fetch_events client channel answer)
                 (filter has_replies (messagesToDelete this msgs))), s2)"
    by blast
  let ?replies = "concat (map (\<lambda>c. pushed_replies (answer (ts c)))
                           (filter has_replies (messagesToDelete this msgs)))"
  obtain d evs3 s3 where del:
    "deleteLoop api client (elevatedClient this) channel
       (messagesToDelete this msgs @ ?replies) s2 = (d, evs3, s3)"
    by (cases "deleteLoop api client (elevatedClient this) channel
                 (messagesToDelete this msgs @ ?replies) s2") auto
  from run_in_channel_unfold [OF assms(1) fetch del]
  have run: "\<exists>evs3 s3. run_in_channel this api client channel s =
      (Inr (),
       ConversationsHistoryCall client channel 20
         # concat (map (fetch_events client channel answer)
                    (filter has_replies (messagesToDelete this msgs))) @ evs3, s3)"
    by simp
  from assms(5) have omitted: "pushed_replies (answer (ts m)) = []"
    by (auto simp: fetch_failed_def pushed_replies_def split: option.splits bool.splits)
  from assms(5) have logged: "fetch_events client channel answer m =
      [ConversationsRepliesCall client channel (ts m), Log ''Error getting messages replies'']"
    by (simp add: fetch_events_def)
  from fetch run omitted logged show ?thesis by blast
qed

lemma failed_thread_response_skipped_example:
  "\<exists>evs3 s3. run_in_channel example_deleter
      (scripted_api two_pages (history_of [announcement, chatter])
         (\<lambda>t. Inr (unreadable_threads t)) (\<lambda>t. False))
      (WebClient ''xoxb'') ''C02'' [] =
    (Inr (),
     [ConversationsHistoryCall (WebClient ''xoxb'') ''C02'' 20,
      ConversationsRepliesCall (WebClient ''xoxb'') ''C02'' ''100.1'',
      Log ''Error getting messages replies''] @ evs3, s3)"
proof -
  let ?api = "scripted_api two_pages (history_of [announcement, chatter])
                (\<lambda>t. Inr (unreadable_threads t)) (\<lambda>t. False)"
  have cands: "messagesToDelete example_deleter [announcement, chatter] = [announcement]"
    by (simp add: messagesToDelete_def isMessageToDelete_def example_deleter_def
          new_CodeReviewChatDeleter_def announcement_def chatter_def truthy_string_def
          example_url_def)
  have hist: "conversations_history ?api (WebClient ''xoxb'') ''C02'' 20 [] =
      (Inr \<lparr> ok = True, messages = Some [announcement, chatter] \<rparr>, [])"
    by (simp add: scripted_api_def history_of_def)
  have answers: "\<forall>c \<in> set (messagesToDelete example_deleter [announcement, chatter]).
      has_replies c \<longrightarrow> thread_answers ?api (WebClient ''xoxb'') ''C02'' unreadable_threads c"
    by (simp add: thread_answers_def scripted_api_def)
  have m: "announcement \<in> set (messagesToDelete example_deleter [announcement, chatter])"
    unfolding cands by simp
  have hr: "has_replies announcement"
    by (simp add: has_replies_def announcement_def truthy_number_def)
  have failed: "fetch_failed (unreadable_threads (ts announcement))"
    by (simp add: fetch_failed_def unreadable_threads_def)
  from failed_thread_response_skipped [OF hist answers m hr failed]
  obtain evs3 s3 where run:
    "run_in_channel example_deleter ?api (WebClient ''xoxb'') ''C02'' [] =
       (Inr (),
        ConversationsHistoryCall (WebClient ''xoxb'') ''C02'' 20
          # concat (map (fetch_events (WebClient ''xoxb'') ''C02'' unreadable_threads)
                     (filter has_replies
                        (messagesToDelete example_deleter [announcement, chatter])))
          @ evs3, s3)"
    by blast
  have "concat (map (fetch_events (WebClient ''xoxb'') ''C02'' unreadable_threads)
                  (filter has_replies
                     (messagesToDelete example_deleter [announcement, chatter]))) =
      [ConversationsRepliesCall (WebClient ''xoxb'') ''C02'' ''100.1'',
       Log ''Error getting messages replies'']"
    unfolding cands using hr failed by (simp add: fetch_events_def announcement_def)
  with run show ?thesis by simp
qed

text \<open>
  Claim C8.  A failed fetch of a reply thread is to be logged and skipped, never fatal.
  The code does so for a failed response (the lemma above), as it catches a throwing
  \<open>conversations.list\<close> and a throwing \<open>chat.delete\<close>; but the \<open>await\<close> of
  \<open>conversations.replies\<close> stands outside every \<open>try\<close>.  When the fetch for the
  candidate \<open>announcement\<close> throws, the error leaves \<open>run\<close>: nothing is logged and
  nothing is deleted.
\<close>

theorem thrown_thread_fetch_is_fatal:
  "run_in_channel example_deleter
      (scripted_api two_pages (history_of [announcement, chatter]) throwing_threads
         (\<lambda>t. False))
      (WebClient ''xoxb'') ''C02'' [] =
    (Inl (Error ''ratelimited''),
     [ConversationsHistoryCall (WebClient ''xoxb'') ''C02'' 20,
      ConversationsRepliesCall (WebClient ''xoxb'') ''C02'' ''100.1''], [])"
proof -
  let ?api = "scripted_api two_pages (history_of [announcement, chatter]) throwing_threads
                (\<lambda>t. False)"
  have cands: "messagesToDelete example_deleter [announcement, chatter] = [announcement]"
    by (simp add: messagesToDelete_def isMessageToDelete_def example_deleter_def
          new_CodeReviewChatDeleter_def announcement_def chatter_def truthy_string_def
          example_url_def)
  have hist: "conversations_history ?api (WebClient ''xoxb'') ''C02'' 20 [] =
      (Inr \<lparr> ok = True, messages = Some [announcement, chatter] \<rparr>, [])"
    by (simp add: scripted_api_def history_of_def)
  have fetch: "fetchReplies ?api (WebClient ''xoxb'') ''C02''
      (messagesToDelete example_deleter [announcement, chatter]) [] =
      (Inl (Error ''ratelimited''),
       [ConversationsRepliesCall (WebClient ''xoxb'') ''C02'' ''100.1''], [])"
    unfolding cands
    by (simp add: scripted_api_def throwing_threads_def announcement_def truthy_number_def)
  show ?thesis
    unfolding run_in_channel_def by (simp add: hist fetch)
qed

section \<open>Properties of the announcement\<close>

lemma diffMessage_unfold:
  "diffMessage toLocaleString p =
     ''+'' @ toLocaleString (additions p) @ '' -'' @ toLocaleString (deletions p) @ '', ''
       @ number_to_string (changed_files p)
       @ (if 1 < changed_files p then '' files'' else '' file'')"
  by (simp add: diffMessage_def changedFilesMessage_def)

lemma suffix_file: "suffix '' file'' (xs @ '' file'')" "\<not> suffix '' files'' (xs @ '' file'')"
proof -
  show "suffix '' file'' (xs @ '' file'')" by (simp add: suffix_def)
  have "suffix ('' file'' @ [CHR ''s'']) ((xs @ '' fil'') @ [CHR ''e'']) \<longleftrightarrow> False"
    by (simp only: snoc_suffix_snoc) simp
  then show "\<not> suffix '' files'' (xs @ '' file'')" by simp
qed

lemma suffix_files: "suffix '' files'' (xs @ '' files'')" "\<not> suffix '' file'' (xs @ '' files'')"
proof -
  show "suffix '' files'' (xs @ '' files'')" by (simp add: suffix_def)
  have "suffix ('' fil'' @ [CHR ''e'']) ((xs @ '' file'') @ [CHR ''s'']) \<longleftrightarrow> False"
    by (simp only: snoc_suffix_snoc) simp
  then show "\<not> suffix '' file'' (xs @ '' files'')" by simp
qed

text \<open>
  Claim C10.  The diff summary is \<open>+\<close>, the additions, \<open> -\<close>, the deletions, a comma and
  the number of changed files followed by \<open> file\<close> when at most one file changed and by
  \<open> files\<close> when more than one did: the summary ends in \<open> file\<close> exactly when
  \<open>changed_files\<close> is at most 1 and in \<open> files\<close> exactly when it is greater than 1.  For
  no changed file it ends in \<open>0 file\<close>.  The summary is what the header of the
  announcement shows between its backticks.
\<close>

theorem changed_files_message_plural:
  "diffMessage toLocaleString p =
     ''+'' @ toLocaleString (additions p) @ '' -'' @ toLocaleString (deletions p) @ '', ''
       @ number_to_string (changed_files p)
       @ (if 1 < changed_files p then '' files'' else '' file'')
   \<and> (suffix '' file'' (diffMessage toLocaleString p) \<longleftrightarrow> changed_files p \<le> 1)
   \<and> (suffix '' files'' (diffMessage toLocaleString p) \<longleftrightarrow> 1 < changed_files p)
   \<and> (changed_files p \<le> 1 \<longrightarrow>
        changedFilesMessage p = number_to_string (changed_files p) @ '' file'')
   \<and> (1 < changed_files p \<longrightarrow>
        changedFilesMessage p = number_to_string (changed_files p) @ '' files'')
   \<and> (changed_files p = 0 \<longrightarrow>
        changedFilesMessage p = ''0 file''
        \<and> diffMessage toLocaleString p =
            ''+'' @ toLocaleString (additions p) @ '' -'' @ toLocaleString (deletions p)
              @ '', 0 file'')
   \<and> (\<exists>blocks. announcement_blocks toLocaleString options =
          Section (cleanTitle (pr (payload options)) @ '' by '' @ owner (pr (payload options))
                   @ repoMessage options @ [CHR '':'', CHR '' '', CHR 0x60]
                   @ diffMessage toLocaleString (pr (payload options)) @ [CHR 0x60]) # blocks)"
proof -
  let ?front = "''+'' @ toLocaleString (additions p) @ '' -'' @ toLocaleString (deletions p)
                  @ '', '' @ number_to_string (changed_files p)"
  have one: "changed_files p \<le> 1 \<Longrightarrow> diffMessage toLocaleString p = ?front @ '' file''"
    by (simp add: diffMessage_unfold)
  have many: "1 < changed_files p \<Longrightarrow> diffMessage toLocaleString p = ?front @ '' files''"
    by (simp add: diffMessage_unfold)
  have singular: "suffix '' file'' (diffMessage toLocaleString p) \<longleftrightarrow> changed_files p \<le> 1"
  proof (cases "changed_files p \<le> 1")
    case True
    with one suffix_file(1) [of ?front] show ?thesis by simp
  next
    case False
    then have "1 < changed_files p" by simp
    from many [OF this] suffix_files(2) [of ?front] False show ?thesis by simp
  qed
  have plural: "suffix '' files'' (diffMessage toLocaleString p) \<longleftrightarrow> 1 < changed_files p"
  proof (cases "1 < changed_files p")
    case True
    from many [OF this] suffix_files(1) [of ?front] True show ?thesis by simp
  next
    case False
    then have "changed_files p \<le> 1" by simp
    from one [OF this] suffix_file(2) [of ?front] False show ?thesis by simp
  qed
  have zero: "number_to_string 0 = ''0''"
    by (simp add: number_to_string_def)
  have header: "\<exists>blocks. announcement_blocks toLocaleString options =
      Section (cleanTitle (pr (payload options)) @ '' by '' @ owner (pr (payload options))
               @ repoMessage options @ [CHR '':'', CHR '' '', CHR 0x60]
               @ diffMessage toLocaleString (pr (payload options)) @ [CHR 0x60]) # blocks"
    by (simp add: announcement_blocks_def)
  show ?thesis
    using singular plural zero header
    by (simp add: diffMessage_unfold changedFilesMessage_def)
qed

theorem changed_files_message_plural_witness:
  "diffMessage (\<lambda>n. number_to_string n) empty_pr = ''+0 -0, 0 file''
   \<and> diffMessage (\<lambda>n. number_to_string n) (empty_pr \<lparr> additions := 5, changed_files := 1 \<rparr>)
       = ''+5 -0, 1 file''
   \<and> diffMessage (\<lambda>n. number_to_string n) (empty_pr \<lparr> additions := 5, changed_files := 3 \<rparr>)
       = ''+5 -0, 3 files''
   \<and> changedFilesMessage empty_pr = ''0 file''"
  using changed_files_message_plural [of "\<lambda>n. number_to_string n" empty_pr]
        changed_files_message_plural
          [of "\<lambda>n. number_to_string n" "empty_pr \<lparr> additions := 5, changed_files := 1 \<rparr>"]
        changed_files_message_plural
          [of "\<lambda>n. number_to_string n" "empty_pr \<lparr> additions := 5, changed_files := 3 \<rparr>"]
  by (simp add: empty_pr_def number_to_string_def)

lemma hasExisting_iff:
  "hasExisting a existingReviews existingRequests \<longleftrightarrow>
     (\<exists>response reviews review.
        existingReviews = Some response \<and> reviews_data response = Some reviews
        \<and> review \<in> set reviews \<and> review_user_login review \<noteq> user_name a)
     \<or> (\<exists>response requests requested.
           existingRequests = Some response \<and> requests_data response = Some requests
           \<and> users requests = Some requested \<and> requested \<noteq> [])"
  by (auto simp: hasExisting_def hasExistingReview_def requestedUsers_def list_ex_iff
           split: option.splits)

lemma assigneeTask_events:
  "fst (snd (assigneeTask gh data)) =
     (if truthy_string (assignee data) then [] else [AddAssigneeCall (user_name (author data))])"
  "snd (snd (assigneeTask gh data)) = []"
  by (simp_all add: assigneeTask_def)

lemma milestoneTask_events:
  "fst (snd (milestoneTask gh data)) = [GetCurrentRepoMilestoneCall]"
  "set (snd (snd (milestoneTask gh data))) =
     (case (getCurrentRepoMilestone gh, milestone data) of
        (Inr (Some m), None) \<Rightarrow> {SetMilestoneCall m}
      | _ \<Rightarrow> {})"
  by (auto simp: milestoneTask_def split: sum.splits option.splits)

text \<open>
  Claim C3.  For a pull request that is not a draft and whose author has write access,
  when the provider reports a review by a user other than the author, or a non-empty list
  of requested reviewers, the run ends without any Slack call (the world state is
  unchanged and no event is a posted message) and logs why.  The author is assigned
  exactly when the issue has no assignee, and the milestone \<open>m\<close> is set exactly when the
  issue has none and \<open>m\<close> is the current milestone of the repository.  The test that
  suppresses the announcement holds exactly when some review is by another user than the
  author or the list of requested reviewers is not empty; reviews by the author alone do
  not count.
\<close>

theorem existing_review_no_post:
  assumes "\<not> draft (pr (payload options))"
    and "getIssue gh = Inr data"
    and "hasWriteAccess gh (author data) = Inr True"
    and "listReviews gh (payload_owner (payload options)) (repo (payload options))
           (number (pr (payload options))) = Inr existingReviews"
    and "listReviewRequests gh (payload_owner (payload options)) (repo (payload options))
           (number (pr (payload options))) = Inr existingRequests"
    and "(\<exists>response reviews review.
            existingReviews = Some response \<and> reviews_data response = Some reviews
            \<and> review \<in> set reviews \<and> review_user_login review \<noteq> user_name (author data))
         \<or> (\<exists>response requests requested.
               existingRequests = Some response \<and> requests_data response = Some requests
               \<and> users requests = Some requested \<and> requested \<noteq> [])"
  shows "(\<exists>r evs.
            run_publisher toLocaleString api gh options s = Some (r, evs, s)
            \<and> (\<forall>e \<in> set evs. \<not> is_post e)
            \<and> Log ''had existing review requests, exiting'' \<in> set evs
            \<and> (AddAssigneeCall (user_name (author data)) \<in> set evs
                 \<longleftrightarrow> \<not> truthy_string (assignee data))
            \<and> (\<forall>m. SetMilestoneCall m \<in> set evs
                 \<longleftrightarrow> milestone data = None \<and> getCurrentRepoMilestone gh = Inr (Some m)))
     \<and> (\<forall>a reviews requested.
           hasExisting a (Some \<lparr> reviews_data = Some reviews \<rparr>)
             (Some \<lparr> requests_data = Some \<lparr> users = Some requested \<rparr> \<rparr>)
           \<longleftrightarrow> (\<exists>review \<in> set reviews. review_user_login review \<noteq> user_name a)
                \<or> requested \<noteq> [])
     \<and> (\<forall>a reviews. \<not> hasExisting a (Some \<lparr> reviews_data = Some reviews \<rparr>) None
           \<longleftrightarrow> (\<forall>review \<in> set reviews. review_user_login review = user_name a))"
proof -
  let ?evs = "[GetIssueCall, HasWriteAccessCall (user_name (author data))]
                @ fst (snd (assigneeTask gh data)) @ fst (snd (milestoneTask gh data))
                @ reviewCalls options
                @ snd (snd (assigneeTask gh data)) @ snd (snd (milestoneTask gh data))
                @ [Log ''had existing review requests, exiting'']"
  from assms(6) have "hasExisting (author data) existingReviews existingRequests"
    by (simp only: hasExisting_iff)
  with assms(4,5) have "announceTask toLocaleString api gh options data s =
      Some (Inr (), [Log ''had existing review requests, exiting''], s)"
    by (simp add: announceTask_def Let_def)
  with assms(1-3) have run: "run_publisher toLocaleString api gh options s =
      Some (all_tasks [fst (assigneeTask gh data), fst (milestoneTask gh data), Inr ()],
            ?evs, s)"
    by (simp add: run_publisher_def)
  have no_post: "\<forall>e \<in> set ?evs. \<not> is_post e"
    by (auto simp: assigneeTask_events milestoneTask_events reviewCalls_def
             split: sum.splits option.splits if_splits)
  have logged: "Log ''had existing review requests, exiting'' \<in> set ?evs"
    by simp
  have assigned: "AddAssigneeCall (user_name (author data)) \<in> set ?evs
      \<longleftrightarrow> \<not> truthy_string (assignee data)"
    by (auto simp: assigneeTask_events milestoneTask_events reviewCalls_def
             split: sum.splits option.splits if_splits)
  have milestone_set: "\<forall>m. SetMilestoneCall m \<in> set ?evs
      \<longleftrightarrow> milestone data = None \<and> getCurrentRepoMilestone gh = Inr (Some m)"
    by (auto simp: assigneeTask_events milestoneTask_events reviewCalls_def
             split: sum.splits option.splits if_splits)
  have gate: "\<forall>a reviews requested.
      hasExisting a (Some \<lparr> reviews_data = Some reviews \<rparr>)
        (Some \<lparr> requests_data = Some \<lparr> users = Some requested \<rparr> \<rparr>)
      \<longleftrightarrow> (\<exists>review \<in> set reviews. review_user_login review \<noteq> user_name a)
           \<or> requested \<noteq> []"
    by (auto simp: hasExisting_iff)
  have own: "\<forall>a reviews. \<not> hasExisting a (Some \<lparr> reviews_data = Some reviews \<rparr>) None
      \<longleftrightarrow> (\<forall>review \<in> set reviews. review_user_login review = user_name a)"
    by (auto simp: hasExisting_iff)
  from run no_post logged assigned milestone_set gate own show ?thesis
    by blast
qed

theorem existing_review_no_post_witness:
  "run_publisher (\<lambda>n. number_to_string n)
      (scripted_api two_pages no_history no_thread (\<lambda>t. False))
      (example_github [\<lparr> review_user_login = ''alice'' \<rparr>, \<lparr> review_user_login = ''bob'' \<rparr>] [])
      (example_options empty_pr) [] =
    Some (Inr (),
          [GetIssueCall, HasWriteAccessCall ''alice'', AddAssigneeCall ''alice'',
           GetCurrentRepoMilestoneCall, ListReviewsCall ''o'' ''r'' 7,
           ListReviewRequestsCall ''o'' ''r'' 7, SetMilestoneCall (Milestone 42),
           Log ''had existing review requests, exiting''], [])
   \<and> run_publisher (\<lambda>n. number_to_string n)
      (scripted_api two_pages no_history no_thread (\<lambda>t. False))
      (example_github [\<lparr> review_user_login = ''alice'' \<rparr>] [''carol''])
      (example_options empty_pr) [] =
    Some (Inr (),
          [GetIssueCall, HasWriteAccessCall ''alice'', AddAssigneeCall ''alice'',
           GetCurrentRepoMilestoneCall, ListReviewsCall ''o'' ''r'' 7,
           ListReviewRequestsCall ''o'' ''r'' 7, SetMilestoneCall (Milestone 42),
           Log ''had existing review requests, exiting''], [])
   \<and> \<not> hasExisting \<lparr> user_name = ''alice'' \<rparr>
         (Some \<lparr> reviews_data = Some [\<lparr> review_user_login = ''alice'' \<rparr>] \<rparr>)
         (Some \<lparr> requests_data = Some \<lparr> users = Some [] \<rparr> \<rparr>)"
proof -
  let ?api = "scripted_api two_pages no_history no_thread (\<lambda>t. False)"
  let ?reviewed = "example_github [\<lparr> review_user_login = ''alice'' \<rparr>,
                                   \<lparr> review_user_login = ''bob'' \<rparr>] []"
  let ?requested = "example_github [\<lparr> review_user_login = ''alice'' \<rparr>] [''carol'']"
  let ?data = "\<lparr> author = \<lparr> user_name = ''alice'' \<rparr>, assignee = None, milestone = None \<rparr>"
  let ?evs = "[GetIssueCall, HasWriteAccessCall ''alice'', AddAssigneeCall ''alice'',
               GetCurrentRepoMilestoneCall, ListReviewsCall ''o'' ''r'' 7,
               ListReviewRequestsCall ''o'' ''r'' 7, SetMilestoneCall (Milestone 42),
               Log ''had existing review requests, exiting'']"
  have h1: "\<not> draft (pr (payload (example_options empty_pr)))"
    by (simp add: example_options_def empty_pr_def)
  have opts: "payload_owner (payload (example_options empty_pr)) = ''o''"
    "repo (payload (example_options empty_pr)) = ''r''"
    "number (pr (payload (example_options empty_pr))) = 7"
    by (simp_all add: example_options_def empty_pr_def)
  have a2: "getIssue ?reviewed = Inr ?data"
    and a3: "hasWriteAccess ?reviewed (author ?data) = Inr True"
    and a4: "listReviews ?reviewed (payload_owner (payload (example_options empty_pr)))
      (repo (payload (example_options empty_pr)))
      (number (pr (payload (example_options empty_pr)))) =
      Inr (Some \<lparr> reviews_data = Some [\<lparr> review_user_login = ''alice'' \<rparr>,
                                        \<lparr> review_user_login = ''bob'' \<rparr>] \<rparr>)"
    and a5: "listReviewRequests ?reviewed (payload_owner (payload (example_options empty_pr)))
      (repo (payload (example_options empty_pr)))
      (number (pr (payload (example_options empty_pr)))) =
      Inr (Some \<lparr> requests_data = Some \<lparr> users = Some [] \<rparr> \<rparr>)"
    by (simp_all add: example_github_def)
  have a6: "(\<exists>response reviews review.
        Some \<lparr> reviews_data = Some [\<lparr> review_user_login = ''alice'' \<rparr>,
                                    \<lparr> review_user_login = ''bob'' \<rparr>] \<rparr> = Some response
        \<and> reviews_data response = Some reviews
        \<and> review \<in> set reviews \<and> review_user_login review \<noteq> user_name (author ?data))
      \<or> (\<exists>response requests requested.
            Some \<lparr> requests_data = Some \<lparr> users = Some [] \<rparr> \<rparr> = Some response
            \<and> requests_data response = Some requests
            \<and> users requests = Some requested \<and> requested \<noteq> [])"
    by auto
  have b2: "getIssue ?requested = Inr ?data"
    and b3: "hasWriteAccess ?requested (author ?data) = Inr True"
    and b4: "listReviews ?requested (payload_owner (payload (example_options empty_pr)))
      (repo (payload (example_options empty_pr)))
      (number (pr (payload (example_options empty_pr)))) =
      Inr (Some \<lparr> reviews_data = Some [\<lparr> review_user_login = ''alice'' \<rparr>] \<rparr>)"
    and b5: "listReviewRequests ?requested (payload_owner (payload (example_options empty_pr)))
      (repo (payload (example_options empty_pr)))
      (number (pr (payload (example_options empty_pr)))) =
      Inr (Some \<lparr> requests_data = Some \<lparr> users = Some [''carol''] \<rparr> \<rparr>)"
    by (simp_all add: example_github_def)
  have b6: "(\<exists>response reviews review.
        Some \<lparr> reviews_data = Some [\<lparr> review_user_login = ''alice'' \<rparr>] \<rparr> = Some response
        \<and> reviews_data response = Some reviews
        \<and> review \<in> set reviews \<and> review_user_login review \<noteq> user_name (author ?data))
      \<or> (\<exists>response requests requested.
            Some \<lparr> requests_data = Some \<lparr> users = Some [''carol''] \<rparr> \<rparr> = Some response
            \<and> requests_data response = Some requests
            \<and> users requests = Some requested \<and> requested \<noteq> [])"
    by auto
  note reviewed = existing_review_no_post
         [OF h1 a2 a3 a4 a5 a6, of "\<lambda>n. number_to_string n" ?api "[]"]
  note requested = existing_review_no_post
         [OF h1 b2 b3 b4 b5 b6, of "\<lambda>n. number_to_string n" ?api "[]"]
  have tasks: "assigneeTask gh ?data =
      (addAssignee gh ''alice'', [AddAssigneeCall ''alice''], [])" for gh
    by (simp add: assigneeTask_def truthy_string_def)
  have gate: "\<not> hasExisting \<lparr> user_name = ''alice'' \<rparr>
      (Some \<lparr> reviews_data = Some [\<lparr> review_user_login = ''alice'' \<rparr>] \<rparr>)
      (Some \<lparr> requests_data = Some \<lparr> users = Some [] \<rparr> \<rparr>)"
    using reviewed [THEN conjunct2, THEN conjunct1, THEN spec, THEN spec, THEN spec,
                    of "\<lparr> user_name = ''alice'' \<rparr>" "[\<lparr> review_user_login = ''alice'' \<rparr>]" "[]"]
    by simp
  have on: "hasExisting \<lparr> user_name = ''alice'' \<rparr>
      (Some \<lparr> reviews_data = Some [\<lparr> review_user_login = ''alice'' \<rparr>] \<rparr>)
      (Some \<lparr> requests_data = Some \<lparr> users = Some [''carol''] \<rparr> \<rparr>)"
    using requested [THEN conjunct2, THEN conjunct1, THEN spec, THEN spec, THEN spec,
                     of "\<lparr> user_name = ''alice'' \<rparr>" "[\<lparr> review_user_login = ''alice'' \<rparr>]"
                        "[''carol'']"]
    by simp
  have on': "hasExisting \<lparr> user_name = ''alice'' \<rparr>
      (Some \<lparr> reviews_data = Some [\<lparr> review_user_login = ''alice'' \<rparr>,
                                   \<lparr> review_user_login = ''bob'' \<rparr>] \<rparr>)
      (Some \<lparr> requests_data = Some \<lparr> users = Some [] \<rparr> \<rparr>)"
    using reviewed [THEN conjunct2, THEN conjunct1, THEN spec, THEN spec, THEN spec,
                    of "\<lparr> user_name = ''alice'' \<rparr>"
                       "[\<lparr> review_user_login = ''alice'' \<rparr>, \<lparr> review_user_login = ''bob'' \<rparr>]"
                       "[]"]
    by simp
  have e1: "run_publisher (\<lambda>n. number_to_string n) ?api ?reviewed (example_options empty_pr) []
      = Some (Inr (), ?evs, [])"
    using on'
    by (simp add: run_publisher_def announceTask_def Let_def tasks milestoneTask_def
          reviewCalls_def example_github_def opts h1)
  have e2: "run_publisher (\<lambda>n. number_to_string n) ?api ?requested (example_options empty_pr) []
      = Some (Inr (), ?evs, [])"
    using on
    by (simp add: run_publisher_def announceTask_def Let_def tasks milestoneTask_def
          reviewCalls_def example_github_def opts h1)
  from e1 e2 gate show ?thesis by simp
qed

lemma str_replace_prefix: "pat \<noteq> [] \<Longrightarrow> str_replace pat rep (pat @ rest) = rep @ rest"
  by (cases pat) simp_all

lemma str_replace_absent: "\<not> str_includes s pat \<Longrightarrow> str_replace pat rep s = s"
  by (induction s) auto

lemma listAllMemberships_loop_no_post:
  assumes "listAllMemberships_loop api web groups chans evs s = Some y"
  shows "(\<forall>e \<in> set evs. \<not> is_post e) \<longrightarrow> (\<forall>e \<in> set (fst (snd y)). \<not> is_post e)"
proof (rule listAllMemberships_loop.raw_induct
         [where P = "\<lambda>api web groups chans evs s y.
                       (\<forall>e \<in> set evs. \<not> is_post e)
                       \<longrightarrow> (\<forall>e \<in> set (fst (snd y)). \<not> is_post e)", OF _ assms])
  fix loop :: "'a slack_api \<Rightarrow> WebClient \<Rightarrow> ConversationsList option \<Rightarrow> Channel list
                 \<Rightarrow> event list \<Rightarrow> 'a \<Rightarrow> (Channel list \<times> event list \<times> 'a) option"
    and api web groups chans evs s y
  assume IH: "\<And>api web groups chans evs s y.
      loop api web groups chans evs s = Some y \<Longrightarrow>
      (\<forall>e \<in> set evs. \<not> is_post e) \<longrightarrow> (\<forall>e \<in> set (fst (snd y)). \<not> is_post e)"
    and body: "(case conversations_list api web (cursor_of groups) s of
        (Inl err, s') \<Rightarrow>
          Some (chans,
                evs @ [ConversationsListCall web (cursor_of groups),
                       Log (''Error listing channels: '' @ error_to_string err)], s')
      | (Inr groups', s') \<Rightarrow>
          if truthy_string (cursor_of (Some groups'))
          then loop api web (Some groups') (chans @ channels groups')
                 (evs @ [ConversationsListCall web (cursor_of groups)]) s'
          else Some (chans @ channels groups',
                     evs @ [ConversationsListCall web (cursor_of groups)], s')) = Some y"
  obtain x s1 where call: "conversations_list api web (cursor_of groups) s = (x, s1)"
    by (cases "conversations_list api web (cursor_of groups) s")
  show "(\<forall>e \<in> set evs. \<not> is_post e) \<longrightarrow> (\<forall>e \<in> set (fst (snd y)). \<not> is_post e)"
  proof (cases x)
    case (Inl err)
    with body call show ?thesis by auto
  next
    case (Inr page)
    show ?thesis
    proof (cases "truthy_string (cursor_of (Some page))")
      case True
      with body call Inr
      have "loop api web (Some page) (chans @ channels page)
              (evs @ [ConversationsListCall web (cursor_of groups)]) s1 = Some y"
        by simp
      from IH [OF this] show ?thesis by simp
    next
      case False
      with body call Inr show ?thesis by auto
    qed
  qed
qed

lemma getChat_no_post:
  "getChat api token name s = Some (r, evs, s') \<Longrightarrow> \<forall>e \<in> set evs. \<not> is_post e"
proof -
  assume a: "getChat api token name s = Some (r, evs, s')"
  then obtain chans s1 where
    "listAllMemberships_loop api (WebClient token) None [] [] s = Some (chans, evs, s1)"
    by (auto simp: getChat_def listAllMemberships_def split: option.splits if_splits)
  from listAllMemberships_loop_no_post [OF this] show ?thesis by simp
qed

lemma postMessage_posts:
  assumes "postMessage api options message blocks s = Some (r, evs, s')"
    and "ChatPostMessageCall web txt channel posted link_names \<in> set evs"
  shows "posted = blocks \<and> txt = message \<and> link_names"
proof -
  from assms(1) obtain g gevs s1 where
    g: "getChat api (options_slackToken options) (codereviewChannel options) s
          = Some (g, gevs, s1)"
    by (auto simp: postMessage_def split: option.splits)
  from getChat_no_post [OF g]
  have no: "ChatPostMessageCall web txt channel posted link_names \<notin> set gevs"
    by (auto dest!: bspec)
  show ?thesis
  proof (cases g)
    case (Inl err)
    with assms g no show ?thesis
      by (auto simp: postMessage_def)
  next
    case (Inr cc)
    with assms g no show ?thesis
      by (cases cc) (auto simp: postMessage_def split: prod.splits)
  qed
qed

lemma announceTask_posts:
  assumes "announceTask toLocaleString api gh options data s = Some (r, evs, s')"
    and "ChatPostMessageCall web txt channel posted link_names \<in> set evs"
  shows "posted = announcement_blocks toLocaleString options"
proof -
  let ?p = "payload options"
  obtain x where x: "listReviews gh (payload_owner ?p) (repo ?p) (number (pr ?p)) = x"
    by simp
  obtain y where y: "listReviewRequests gh (payload_owner ?p) (repo ?p) (number (pr ?p)) = y"
    by simp
  show ?thesis
  proof (cases x)
    case (Inl err)
    with assms x show ?thesis by (auto simp: announceTask_def Let_def)
  next
    case reviews: (Inr existingReviews)
    show ?thesis
    proof (cases y)
      case (Inl err)
      with assms x y reviews show ?thesis by (auto simp: announceTask_def Let_def)
    next
      case requests: (Inr existingRequests)
      show ?thesis
      proof (cases "hasExisting (author data) existingReviews existingRequests")
        case True
        with assms x y reviews requests show ?thesis
          by (auto simp: announceTask_def Let_def)
      next
        case False
        with assms(1) x y reviews requests obtain pr_res pevs where
          post: "postMessage api options (''New Pull Request from '' @ owner (pr ?p))
                   (announcement_blocks toLocaleString options) s = Some (pr_res, pevs, s')"
          and evs: "evs = Log (''New Pull Request from '' @ owner (pr ?p)) # pevs"
          by (auto simp: announceTask_def Let_def split: option.splits)
        from evs assms(2)
        have "ChatPostMessageCall web txt channel posted link_names \<in> set pevs"
          by auto
        from postMessage_posts [OF post this] show ?thesis by simp
      qed
    qed
  qed
qed

lemma task_events_no_post:
  "ChatPostMessageCall web txt channel posted link_names
     \<notin> set (fst (snd (assigneeTask gh data)))"
  "ChatPostMessageCall web txt channel posted link_names
     \<notin> set (snd (snd (assigneeTask gh data)))"
  "ChatPostMessageCall web txt channel posted link_names
     \<notin> set (fst (snd (milestoneTask gh data)))"
  "ChatPostMessageCall web txt channel posted link_names
     \<notin> set (snd (snd (milestoneTask gh data)))"
  "ChatPostMessageCall web txt channel posted link_names \<notin> set (reviewCalls options)"
  by (auto simp: assigneeTask_def milestoneTask_def reviewCalls_def
           split: sum.splits option.splits)

lemma run_publisher_posts:
  assumes "run_publisher toLocaleString api gh options s = Some (r, evs, s')"
    and "ChatPostMessageCall web txt channel posted link_names \<in> set evs"
  shows "posted = announcement_blocks toLocaleString options"
proof (cases "draft (pr (payload options))")
  case True
  with assms show ?thesis by (auto simp: run_publisher_def)
next
  case nd: False
  show ?thesis
  proof (cases "getIssue gh")
    case (Inl err)
    with assms nd show ?thesis by (auto simp: run_publisher_def)
  next
    case issue: (Inr data)
    show ?thesis
    proof (cases "hasWriteAccess gh (author data)")
      case (Inl err)
      with assms nd issue show ?thesis by (auto simp: run_publisher_def)
    next
      case access: (Inr allowed)
      show ?thesis
      proof (cases allowed)
        case False
        with assms nd issue access show ?thesis by (auto simp: run_publisher_def)
      next
        case True
        with assms(1) nd issue access obtain r3 evs3 where
          task: "announceTask toLocaleString api gh options data s = Some (r3, evs3, s')"
          and evs: "evs = [GetIssueCall, HasWriteAccessCall (user_name (author data))]
                      @ fst (snd (assigneeTask gh data)) @ fst (snd (milestoneTask gh data))
                      @ reviewCalls options
                      @ snd (snd (assigneeTask gh data)) @ snd (snd (milestoneTask gh data))
                      @ evs3"
          by (auto simp: run_publisher_def split: option.splits)
        from evs assms(2) task_events_no_post
        have "ChatPostMessageCall web txt channel posted link_names \<in> set evs3"
          by auto
        from announceTask_posts [OF task this] show ?thesis .
      qed
    qed
  qed
qed

lemma example_getChat:
  "\<exists>s'. getChat (scripted_api two_pages no_history no_thread (\<lambda>t. False))
          ''xoxb'' ''codereview'' [] =
     Some (Inr (WebClient ''xoxb'', ''C02''),
           [ConversationsListCall (WebClient ''xoxb'') None,
            ConversationsListCall (WebClient ''xoxb'') (Some ''dGVhbTpD'')], s')"
proof -
  let ?api = "scripted_api two_pages no_history no_thread (\<lambda>t. False)"
  have "serves ?api (WebClient ''xoxb'') (cursor_of None) [] (map Inr [first_page, last_page])"
    by (simp add: scripted_api_def two_pages_def cursor_after_def cursor_of_def
          first_page_def)
  moreover have "\<forall>p \<in> set (butlast [first_page, last_page]). has_next p"
    by (simp add: has_next_def cursor_of_def truthy_string_def first_page_def)
  moreover have "\<not> has_next (last [first_page, last_page])"
    by (simp add: has_next_def cursor_of_def truthy_string_def last_page_def)
  ultimately obtain s' where
    "listAllMemberships_loop ?api (WebClient ''xoxb'') None [] [] [] =
       Some ([] @ concat (map channels [first_page, last_page]),
             [] @ list_calls (WebClient ''xoxb'') (cursor_of None)
                    (map Inr [first_page, last_page]), s')"
    using loop_all_pages [of ?api "WebClient ''xoxb''" None "[]" "[first_page, last_page]"
                             "[]" "[]"]
    by blast
  then have "getChat ?api ''xoxb'' ''codereview'' [] =
     Some (Inr (WebClient ''xoxb'', ''C02''),
           [ConversationsListCall (WebClient ''xoxb'') None,
            ConversationsListCall (WebClient ''xoxb'') (Some ''dGVhbTpD'')], s')"
    by (simp add: getChat_def listAllMemberships_def cursor_after_def cursor_of_def
          first_page_def last_page_def)
  then show ?thesis by blast
qed

lemma example_run_posts:
  assumes "\<not> draft p"
  shows "\<exists>r evs s'.
           run_publisher toLocaleString (scripted_api two_pages no_history no_thread (\<lambda>t. False))
             (example_github [] []) (example_options p) [] = Some (r, evs, s')
           \<and> ChatPostMessageCall (WebClient ''xoxb'') (''New Pull Request from '' @ owner p)
                ''C02'' (announcement_blocks toLocaleString (example_options p)) True \<in> set evs"
proof -
  let ?api = "scripted_api two_pages no_history no_thread (\<lambda>t. False)"
  from example_getChat obtain s1 where
    chat: "getChat ?api ''xoxb'' ''codereview'' [] =
       Some (Inr (WebClient ''xoxb'', ''C02''),
             [ConversationsListCall (WebClient ''xoxb'') None,
              ConversationsListCall (WebClient ''xoxb'') (Some ''dGVhbTpD'')], s1)"
    by blast
  obtain r2 s2 where post: "chat_postMessage ?api (WebClient ''xoxb'')
      (''New Pull Request from '' @ owner p) ''C02''
      (announcement_blocks toLocaleString (example_options p)) True s1 = (r2, s2)"
    by (cases "chat_postMessage ?api (WebClient ''xoxb'')
      (''New Pull Request from '' @ owner p) ''C02''
      (announcement_blocks toLocaleString (example_options p)) True s1")
  have opts: "options_slackToken (example_options p) = ''xoxb''"
    "codereviewChannel (example_options p) = ''codereview''"
    "pr (payload (example_options p)) = p"
    by (simp_all add: example_options_def)
  from chat post have pm: "postMessage ?api (example_options p)
      (''New Pull Request from '' @ owner p)
      (announcement_blocks toLocaleString (example_options p)) [] =
      Some (r2, [ConversationsListCall (WebClient ''xoxb'') None,
                 ConversationsListCall (WebClient ''xoxb'') (Some ''dGVhbTpD'')]
                @ [ChatPostMessageCall (WebClient ''xoxb'')
                     (''New Pull Request from '' @ owner p) ''C02''
                     (announcement_blocks toLocaleString (example_options p)) True], s2)"
    by (simp add: postMessage_def opts)
  have gate: "\<not> hasExisting \<lparr> user_name = ''alice'' \<rparr>
      (Some \<lparr> reviews_data = Some [] \<rparr>)
      (Some \<lparr> requests_data = Some \<lparr> users = Some [] \<rparr> \<rparr>)"
    by (simp add: hasExisting_def hasExistingReview_def requestedUsers_def)
  from pm gate have "\<exists>r3 evs3.
      announceTask toLocaleString ?api (example_github [] []) (example_options p)
        \<lparr> author = \<lparr> user_name = ''alice'' \<rparr>, assignee = None, milestone = None \<rparr> [] =
        Some (r3, evs3, s2)
      \<and> ChatPostMessageCall (WebClient ''xoxb'') (''New Pull Request from '' @ owner p)
            ''C02'' (announcement_blocks toLocaleString (example_options p)) True \<in> set evs3"
    by (simp add: announceTask_def Let_def opts example_github_def)
  with assms show ?thesis
    by (auto simp: run_publisher_def opts example_github_def)
qed

text \<open>
  Claim C9 (amended).  The blocks of every posted announcement carry two action
  controls.  The URL of the first is the pull request's URL in which the first
  occurrence of \<open>https://\<close> is replaced by \<open>https://insiders.vscode.dev/\<close>: for a URL that
  starts with \<open>https://\<close> it is \<open>https://insiders.vscode.dev/\<close> followed by the rest of
  the URL, host included, and for a URL without \<open>https://\<close> it is the URL itself.  The
  URL of the second is the pull request's URL.
\<close>

theorem action_control_urls:
  assumes "run_publisher toLocaleString api gh options s = Some (r, evs, s')"
    and "ChatPostMessageCall web txt channel blocks link_names \<in> set evs"
  shows "action_urls blocks =
           [str_replace ''https://'' ''https://insiders.vscode.dev/'' (url (pr (payload options))),
            url (pr (payload options))]
     \<and> (\<forall>rest. url (pr (payload options)) = ''https://'' @ rest \<longrightarrow>
           action_urls blocks =
             [''https://insiders.vscode.dev/'' @ rest, url (pr (payload options))])
     \<and> (\<not> str_includes (url (pr (payload options))) ''https://'' \<longrightarrow>
           action_urls blocks = [url (pr (payload options)), url (pr (payload options))])"
proof -
  from run_publisher_posts [OF assms]
  have urls: "action_urls blocks =
      [str_replace ''https://'' ''https://insiders.vscode.dev/'' (url (pr (payload options))),
       url (pr (payload options))]"
    by (simp add: announcement_blocks_def vscodeDevUrl_def githubUrl_def)
  have "str_replace ''https://'' ''https://insiders.vscode.dev/'' (''https://'' @ rest) =
      ''https://insiders.vscode.dev/'' @ rest" for rest
    by (rule str_replace_prefix) simp
  moreover have "\<not> str_includes (url (pr (payload options))) ''https://'' \<Longrightarrow>
      str_replace ''https://'' ''https://insiders.vscode.dev/'' (url (pr (payload options))) =
      url (pr (payload options))"
    by (rule str_replace_absent)
  ultimately show ?thesis using urls by auto
qed

theorem action_control_urls_witness:
  "\<exists>r evs s' blocks.
     run_publisher (\<lambda>n. number_to_string n)
       (scripted_api two_pages no_history no_thread (\<lambda>t. False))
       (example_github [] []) (example_options empty_pr) [] = Some (r, evs, s')
     \<and> ChatPostMessageCall (WebClient ''xoxb'') ''New Pull Request from alice'' ''C02'' blocks True
         \<in> set evs
     \<and> action_urls blocks =
         [''https://insiders.vscode.dev/github.com/o/r/pull/7'', ''https://github.com/o/r/pull/7'']"
proof -
  have "\<not> draft empty_pr" by (simp add: empty_pr_def)
  from example_run_posts [OF this, of "\<lambda>n. number_to_string n"] obtain r evs s' where
    run: "run_publisher (\<lambda>n. number_to_string n)
       (scripted_api two_pages no_history no_thread (\<lambda>t. False))
       (example_github [] []) (example_options empty_pr) [] = Some (r, evs, s')"
    and post: "ChatPostMessageCall (WebClient ''xoxb'')
       (''New Pull Request from '' @ owner empty_pr) ''C02''
       (announcement_blocks (\<lambda>n. number_to_string n) (example_options empty_pr)) True \<in> set evs"
    by blast
  have u: "url (pr (payload (example_options empty_pr))) = ''https://'' @ ''github.com/o/r/pull/7''"
    by (simp add: example_options_def empty_pr_def)
  from action_control_urls [OF run post] u
  have "action_urls (announcement_blocks (\<lambda>n. number_to_string n) (example_options empty_pr)) =
      [''https://insiders.vscode.dev/'' @ ''github.com/o/r/pull/7'',
       url (pr (payload (example_options empty_pr)))]"
    by blast
  then have "action_urls (announcement_blocks (\<lambda>n. number_to_string n)
                 (example_options empty_pr)) =
      [''https://insiders.vscode.dev/github.com/o/r/pull/7'', ''https://github.com/o/r/pull/7'']"
    by (simp add: example_options_def empty_pr_def)
  moreover have "owner empty_pr = ''alice''" by (simp add: empty_pr_def)
  ultimately show ?thesis using run post by auto
qed

text \<open>
  Claim C9 as stated fails for a pull request whose URL does not contain \<open>https://\<close>:
  the announcement is posted, and the URL of its first action control is the pull
  request's URL unchanged, the same as that of the second; the host of the web editor
  does not occur in it.
\<close>

theorem plain_http_url_not_replaced:
  "\<exists>r evs s' blocks.
     run_publisher (\<lambda>n. number_to_string n)
       (scripted_api two_pages no_history no_thread (\<lambda>t. False))
       (example_github [] [])
       (example_options (empty_pr \<lparr> url := ''http://git.example.com/o/r/pull/7'' \<rparr>)) [] =
       Some (r, evs, s')
     \<and> ChatPostMessageCall (WebClient ''xoxb'') ''New Pull Request from alice'' ''C02'' blocks True
         \<in> set evs
     \<and> action_urls blocks =
         [''http://git.example.com/o/r/pull/7'', ''http://git.example.com/o/r/pull/7'']
     \<and> \<not> str_includes (hd (action_urls blocks)) ''insiders.vscode.dev''"
proof -
  let ?p = "empty_pr \<lparr> url := ''http://git.example.com/o/r/pull/7'' \<rparr>"
  have "\<not> draft ?p" by (simp add: empty_pr_def)
  from example_run_posts [OF this, of "\<lambda>n. number_to_string n"] obtain r evs s' where
    run: "run_publisher (\<lambda>n. number_to_string n)
       (scripted_api two_pages no_history no_thread (\<lambda>t. False))
       (example_github [] []) (example_options ?p) [] = Some (r, evs, s')"
    and post: "ChatPostMessageCall (WebClient ''xoxb'')
       (''New Pull Request from '' @ owner ?p) ''C02''
       (announcement_blocks (\<lambda>n. number_to_string n) (example_options ?p)) True \<in> set evs"
    by blast
  have urls: "action_urls (announcement_blocks (\<lambda>n. number_to_string n) (example_options ?p)) =
      [''http://git.example.com/o/r/pull/7'', ''http://git.example.com/o/r/pull/7'']"
    by (simp add: announcement_blocks_def vscodeDevUrl_def githubUrl_def example_options_def
          empty_pr_def)
  have absent: "\<not> str_includes ''http://git.example.com/o/r/pull/7'' ''insiders.vscode.dev''"
    by simp
  have "owner ?p = ''alice''" by (simp add: empty_pr_def)
  with run post urls absent show ?thesis by auto
qed

end
